theory Spec2Isabelle
  imports Complex_Main
begin

section \<open>Python values: errors and floating-point results\<close>

text \<open>
  The exceptions that the embedded functions of \<^verbatim>\<open>lstm_vision/functions.py\<close> can raise.
  A function that may raise returns \<open>error + 'a\<close>, with \<open>Inl\<close> for the exception.
\<close>

datatype error =
    AssertionError
  | ZeroDivisionError
  | UnboundLocalError
  | IndexError
  | KeyError
  | RuntimeError

definition ebind :: "error + 'a \<Rightarrow> ('a \<Rightarrow> error + 'b) \<Rightarrow> error + 'b" where
  "ebind m f = (case m of Inl e \<Rightarrow> Inl e | Inr x \<Rightarrow> f x)"

text \<open>
  A loop whose body may raise: the first exception ends the loop.
\<close>

fun efold :: "('a \<Rightarrow> 's \<Rightarrow> error + 's) \<Rightarrow> 'a list \<Rightarrow> 's \<Rightarrow> error + 's" where
  "efold f [] s = Inr s"
| "efold f (x # xs) s = (case f x s of Inl e \<Rightarrow> Inl e | Inr s' \<Rightarrow> efold f xs s')"

text \<open>
  The result of a floating-point operation of numpy or torch: a finite value, read as a
  real number (rounding and signed zeros are not represented), or one of the three special
  values. Division by zero does not raise there; it yields \<open>NaN\<close> or an infinity.
\<close>

datatype fl = NaN | NInf | Fin real | PInf

fun fl_add :: "fl \<Rightarrow> fl \<Rightarrow> fl" where
  "fl_add NaN y = NaN"
| "fl_add x NaN = NaN"
| "fl_add (Fin a) (Fin b) = Fin (a + b)"
| "fl_add (Fin a) y = y"
| "fl_add x (Fin b) = x"
| "fl_add PInf PInf = PInf"
| "fl_add NInf NInf = NInf"
| "fl_add PInf NInf = NaN"
| "fl_add NInf PInf = NaN"

fun fl_div :: "fl \<Rightarrow> fl \<Rightarrow> fl" where
  "fl_div NaN y = NaN"
| "fl_div x NaN = NaN"
| "fl_div (Fin a) (Fin b) =
     (if b = 0 then (if a = 0 then NaN else if 0 < a then PInf else NInf)
      else Fin (a / b))"
| "fl_div (Fin a) y = Fin 0"
| "fl_div PInf (Fin b) = (if 0 \<le> b then PInf else NInf)"
| "fl_div NInf (Fin b) = (if 0 \<le> b then NInf else PInf)"
| "fl_div x y = NaN"

text \<open>The comparison \<^verbatim>\<open><\<close> of floats: every comparison with \<open>NaN\<close> is false.\<close>

fun fl_lt :: "fl \<Rightarrow> fl \<Rightarrow> bool" where
  "fl_lt NaN y = False"
| "fl_lt x NaN = False"
| "fl_lt (Fin a) (Fin b) = (a < b)"
| "fl_lt NInf NInf = False"
| "fl_lt NInf y = True"
| "fl_lt x NInf = False"
| "fl_lt PInf y = False"
| "fl_lt x PInf = True"

definition fl_le :: "fl \<Rightarrow> fl \<Rightarrow> bool" where
  "fl_le x y = (fl_lt x y \<or> (x = y \<and> x \<noteq> NaN))"

text \<open>\<^verbatim>\<open>str.lower()\<close> on ASCII strings.\<close>

definition char_lower :: "char \<Rightarrow> char" where
  "char_lower c =
     (case map_of (zip ''ABCDEFGHIJKLMNOPQRSTUVWXYZ'' ''abcdefghijklmnopqrstuvwxyz'') c of
        None \<Rightarrow> c | Some d \<Rightarrow> d)"

definition str_lower :: "string \<Rightarrow> string" where
  "str_lower s = map char_lower s"


section \<open>Command-line options and their validation\<close>

text \<open>
  The namespace that \<^verbatim>\<open>TrainOptions\<close> (train_options.py) parses: one field per
  \<^verbatim>\<open>add_argument\<close>, and \<open>default_args\<close> holds the declared defaults (what an empty
  command line gives).
\<close>

record args =
  compile_mode :: "string option"
  dropout_rate :: real
  freq_output__train :: int
  freq_output__val :: int
  num_workers :: int
  pin_memory :: bool
  saving_path :: string
  seed_number :: "int option"
  hidden_size :: int
  num_layers :: int
  channels_img :: int
  learning_rate :: real
  num_epochs :: int
  batch_size :: int
  loading_path :: "string option"
  bidirectional :: bool
  train_split :: real
  use_amp :: bool

definition default_args :: args where
  "default_args =
     \<lparr> compile_mode = None,
       dropout_rate = 0.0,
       freq_output__train = 1,
       freq_output__val = 1,
       num_workers = 0,
       pin_memory = False,
       saving_path = '''',
       seed_number = None,
       hidden_size = 256,
       num_layers = 3,
       channels_img = 1,
       learning_rate = 1 / 10000,
       num_epochs = 10,
       batch_size = 1024,
       loading_path = None,
       bidirectional = False,
       train_split = 5 / 6,
       use_amp = False \<rparr>"

text \<open>
  \<^verbatim>\<open>check_args\<close>: four assertions in the order of the source, then the namespace is
  printed (the printing is not represented).
\<close>

definition check_args :: "args \<Rightarrow> error + unit" where
  "check_args a =
     (if compile_mode a \<notin> set [None, Some ''default'', Some ''reduce-overhead'',
                                 Some ''max-autotune'']
      then Inl AssertionError
      else if pin_memory a \<and> \<not> (num_workers a > 0) then Inl AssertionError
      else if \<not> (0 < dropout_rate a \<and> dropout_rate a < 1) then Inl AssertionError
      else if \<not> (0 < train_split a \<and> train_split a < 1) then Inl AssertionError
      else Inr ())"


section \<open>Loaders and the progress line\<close>

text \<open>
  What the training code observes of a \<^verbatim>\<open>DataLoader\<close>: \<^verbatim>\<open>len(loader.dataset)\<close>,
  \<^verbatim>\<open>loader.batch_size\<close>, \<^verbatim>\<open>len(loader)\<close>, and the batches that the k-th pass over
  it yields (a shuffling loader yields a different list on every pass).
\<close>

record 'b loader =
  dataset_len :: nat
  loader_batch_size :: nat
  loader_len :: nat
  batches :: "nat \<Rightarrow> 'b list"

text \<open>
  The line that \<^verbatim>\<open>format_line\<close> builds, as the values it formats. The loss is a
  float (it can be \<open>NaN\<close> or an infinity). The run time comes from the clock and is left
  out.
\<close>

record line =
  ln_mode :: string
  ln_epoch :: nat
  ln_current_samples :: int
  ln_total_samples :: int
  ln_percentage :: real
  ln_loss :: fl

definition format_line :: "string \<Rightarrow> nat \<Rightarrow> int \<Rightarrow> int \<Rightarrow> real \<Rightarrow> fl \<Rightarrow> error + line" where
  "format_line mode epoch current_samples total_samples percentage loss =
     (if str_lower mode \<notin> set [''train'', ''val''] then Inl AssertionError
      else Inr \<lparr> ln_mode = mode, ln_epoch = epoch, ln_current_samples = current_samples,
                 ln_total_samples = total_samples, ln_percentage = percentage,
                 ln_loss = loss \<rparr>)"

text \<open>
  \<^verbatim>\<open>print__batch_info\<close>: the result is the line printed, if any. The frequency is an
  \<open>int\<close>, so \<^verbatim>\<open>assert type(frequency) == int\<close> holds; \<^verbatim>\<open>%\<close> and \<^verbatim>\<open>/\<close> raise
  on a zero divisor. Python's \<^verbatim>\<open>%\<close> takes the sign of the divisor, as \<open>mod\<close> on \<open>int\<close>.
\<close>

definition print__batch_info ::
  "string \<Rightarrow> int \<Rightarrow> 'b loader \<Rightarrow> nat \<Rightarrow> fl \<Rightarrow> int \<Rightarrow> error + line option" where
  "print__batch_info mode batch_idx ldr epoch loss frequency =
     (if str_lower mode \<notin> set [''train'', ''val''] then Inl AssertionError
      else if frequency = 0 then Inl ZeroDivisionError
      else if batch_idx mod frequency = 0 then
        (let current_samples =
               (if batch_idx = int (loader_len ldr) - 1 then int (dataset_len ldr)
                else (batch_idx + 1) * int (loader_batch_size ldr));
             total_samples = int (dataset_len ldr)
         in if total_samples = 0 then Inl ZeroDivisionError
            else ebind (format_line mode epoch current_samples total_samples
                          (100 * real_of_int current_samples / real_of_int total_samples) loss)
                   (\<lambda>l. Inr (Some l)))
      else Inr None)"


section \<open>The confusion matrix\<close>

text \<open>
  Indexing one dimension of size \<open>n\<close> of a tensor with an integer: negative indices
  count from the end, anything else out of range raises \<^verbatim>\<open>IndexError\<close>.
\<close>

definition py_index :: "nat \<Rightarrow> int \<Rightarrow> nat option" where
  "py_index n i =
     (if 0 \<le> i \<and> i < int n then Some (nat i)
      else if - int n \<le> i \<and> i < 0 then Some (nat (int n + i))
      else None)"

definition zeros :: "nat \<Rightarrow> nat \<Rightarrow> fl list list" where
  "zeros r c = replicate r (replicate c (Fin 0))"

text \<open>\<^verbatim>\<open>confusion_matrix[t, p] += 1\<close>\<close>

definition cm_increment :: "nat \<Rightarrow> fl list list \<Rightarrow> int \<times> int \<Rightarrow> error + fl list list" where
  "cm_increment n m tp =
     (case py_index n (fst tp) of
        None \<Rightarrow> Inl IndexError
      | Some i \<Rightarrow>
          (case py_index n (snd tp) of
             None \<Rightarrow> Inl IndexError
           | Some j \<Rightarrow> Inr (m[i := (m ! i)[j := fl_add (m ! i ! j) (Fin 1)]])))"

text \<open>
  One batch of the test loader is the inputs with their classes; \<open>model\<close> gives the
  predicted class of every input of a batch (\<^verbatim>\<open>torch.max(model(inputs), 1)\<close>, second
  component). The inner loop runs over \<^verbatim>\<open>zip(classes, preds)\<close>.
\<close>

definition cm_batch ::
  "nat \<Rightarrow> ('x \<Rightarrow> int list) \<Rightarrow> 'x \<times> int list \<Rightarrow> fl list list \<Rightarrow> error + fl list list" where
  "cm_batch n model b m =
     efold (\<lambda>tp m'. cm_increment n m' tp) (zip (snd b) (model (fst b))) m"

definition confusion_counts ::
  "nat \<Rightarrow> ('x \<times> int list) list \<Rightarrow> ('x \<Rightarrow> int list) \<Rightarrow> error + fl list list" where
  "confusion_counts num_classes test_loader model =
     efold (cm_batch num_classes model) test_loader (zeros num_classes num_classes)"

text \<open>
  The normalisation of row \<open>i\<close>: \<^verbatim>\<open>total_sums\<close> starts at 0 and adds every element,
  then the row is divided by it, element by element.
\<close>

definition fl_sum :: "fl list \<Rightarrow> fl" where
  "fl_sum row = foldl fl_add (Fin 0) row"

definition normalize_row :: "fl list \<Rightarrow> fl list" where
  "normalize_row row =
     (let total_sums = fl_sum row
      in map (\<lambda>element. fl_div element total_sums) row)"

definition normalize_rows :: "nat \<Rightarrow> fl list list \<Rightarrow> fl list list" where
  "normalize_rows num_classes m =
     foldl (\<lambda>m' i. m'[i := normalize_row (m' ! i)]) m [0..<num_classes]"

definition produce_and_print_confusion_matrix ::
  "nat \<Rightarrow> ('x \<times> int list) list \<Rightarrow> ('x \<Rightarrow> int list) \<Rightarrow> error + fl list list" where
  "produce_and_print_confusion_matrix num_classes test_loader model =
     ebind (confusion_counts num_classes test_loader model)
       (\<lambda>m. Inr (normalize_rows num_classes m))"

text \<open>The samples of a pass, in the order in which the loop meets them.\<close>

definition cm_samples :: "('x \<times> int list) list \<Rightarrow> ('x \<Rightarrow> int list) \<Rightarrow> (int \<times> int) list" where
  "cm_samples test_loader model = concat (map (\<lambda>b. zip (snd b) (model (fst b))) test_loader)"

definition cell_count :: "nat \<Rightarrow> (int \<times> int) list \<Rightarrow> nat \<Rightarrow> nat \<Rightarrow> nat" where
  "cell_count n samples i j =
     length (filter (\<lambda>tp. py_index n (fst tp) = Some i \<and> py_index n (snd tp) = Some j) samples)"


section \<open>Tensors in a store, state dictionaries and checkpoints\<close>

text \<open>
  Tensors live in a store, a list indexed by address; a new tensor is appended. A state
  dictionary (\<^verbatim>\<open>model.state_dict()\<close>, \<^verbatim>\<open>optimizer.state_dict()\<close>) maps names to the
  addresses of the live tensors: it shares them, it does not copy them. A model is given by
  the state dictionary of its parameters, an optimizer by that of its state tensors. A
  checkpoint is a dictionary from field names to state dictionaries.
\<close>

type_synonym addr = nat
type_synonym state_dict = "(string \<times> addr) list"
type_synonym checkpoint = "(string \<times> state_dict) list"

definition tensor_values :: "'v list \<Rightarrow> state_dict \<Rightarrow> 'v list" where
  "tensor_values h sd = map (\<lambda>e. h ! snd e) sd"

definition checkpoint_values :: "'v list \<Rightarrow> checkpoint \<Rightarrow> (string \<times> (string \<times> 'v) list) list" where
  "checkpoint_values h c = map (\<lambda>f. (fst f, map (\<lambda>e. (fst e, h ! snd e)) (snd f))) c"

definition checkpoint_addrs :: "checkpoint \<Rightarrow> addr set" where
  "checkpoint_addrs c = (\<Union>f \<in> set c. snd ` set (snd f))"

text \<open>
  \<^verbatim>\<open>copy.deepcopy\<close> of a state dictionary: every tensor is copied to a new address, and
  the copy maps the same names to the new addresses.
\<close>

definition deepcopy :: "state_dict \<Rightarrow> 'v list \<Rightarrow> state_dict \<times> 'v list" where
  "deepcopy sd h =
     (zip (map fst sd) [length h ..< length h + length sd], h @ map (\<lambda>e. h ! snd e) sd)"

text \<open>In-place assignment of new values to the tensors at the given addresses.\<close>

definition write_all :: "addr list \<Rightarrow> 'v list \<Rightarrow> 'v list \<Rightarrow> 'v list" where
  "write_all as vs h = foldl (\<lambda>h' av. h'[fst av := snd av]) h (zip as vs)"

text \<open>
  What the training loop uses of torch, as functions of the current tensor values:
  \<^item> \<open>grad_scaler\<close>: the state of \<^verbatim>\<open>GradScaler(enabled=use_amp)\<close>;
  \<^item> \<open>train_step\<close>: the new values of the model's parameters, of the optimizer's state
    tensors and of the scaler after \<^verbatim>\<open>zero_grad\<close>, the forward pass, \<^verbatim>\<open>backward\<close>,
    \<^verbatim>\<open>scaler.step(optimizer)\<close> and \<^verbatim>\<open>scaler.update()\<close> on one batch;
  \<^item> \<open>cce_sum\<close>, \<open>cce_mean\<close>: the cross-entropy of the model's output on a batch with
    reduction "sum" and "mean", read with \<^verbatim>\<open>.item()\<close>; the first argument tells whether
    the model is in training mode, the second is \<^verbatim>\<open>use_amp\<close>. A loss is a float: it
    can be \<open>NaN\<close> or an infinity;
  \<^item> \<open>count_correct\<close>: \<^verbatim>\<open>(max_indices == labels).sum()\<close>;
  \<^item> \<open>batch_len\<close>: \<^verbatim>\<open>output.shape[0]\<close>.
\<close>

record ('v, 'b, 'g) torch =
  grad_scaler :: "bool \<Rightarrow> 'g"
  train_step :: "bool \<Rightarrow> 'b \<Rightarrow> 'v list \<times> 'v list \<times> 'g \<Rightarrow> 'v list \<times> 'v list \<times> 'g"
  cce_sum :: "bool \<Rightarrow> bool \<Rightarrow> 'v list \<Rightarrow> 'b \<Rightarrow> fl"
  cce_mean :: "bool \<Rightarrow> bool \<Rightarrow> 'v list \<Rightarrow> 'b \<Rightarrow> fl"
  count_correct :: "bool \<Rightarrow> bool \<Rightarrow> 'v list \<Rightarrow> 'b \<Rightarrow> nat"
  batch_len :: "'b \<Rightarrow> nat"


section \<open>The training and validation loop\<close>

datatype out = BatchLine line | EpochLine nat fl fl real real

text \<open>
  The store, the scaler, the console and the local variables of
  \<^verbatim>\<open>train_and_validate\<close>. \<open>checkpoint = None\<close> stands for the local variable not
  being bound yet.
\<close>

record ('v, 'g) tv =
  heap :: "'v list"
  scaler :: 'g
  stdout :: "out list"
  min_val_loss :: fl
  checkpoint :: "checkpoint option"
  train_losses :: "fl list"
  val_losses :: "fl list"
  train_accs :: "real list"
  val_accs :: "real list"
  trainingLoss_perEpoch :: "fl list"
  valLoss_perEpoch :: "fl list"
  num_correct :: nat
  num_samples :: nat
  val_num_correct :: nat
  val_num_samples :: nat

definition tv_init :: "('v, 'b, 'g) torch \<Rightarrow> bool \<Rightarrow> 'v list \<Rightarrow> ('v, 'g) tv" where
  "tv_init env amp h =
     \<lparr> heap = h, scaler = grad_scaler env amp, stdout = [], min_val_loss = PInf,
       checkpoint = None, train_losses = [], val_losses = [], train_accs = [],
       val_accs = [], trainingLoss_perEpoch = [], valLoss_perEpoch = [],
       num_correct = 0, num_samples = 0, val_num_correct = 0, val_num_samples = 0 \<rparr>"

definition emit :: "line option \<Rightarrow> ('v, 'g) tv \<Rightarrow> ('v, 'g) tv" where
  "emit l s = s\<lparr>stdout := stdout s @ (case l of None \<Rightarrow> [] | Some x \<Rightarrow> [BatchLine x])\<rparr>"

text \<open>
  The optimizer step of one training batch on the store: the new values that
  \<open>train_step\<close> computes from the current ones overwrite the model's parameters and the
  optimizer's state tensors in place. The result is the store and the scaler.
\<close>

definition apply_step ::
  "('v, 'b, 'g) torch \<Rightarrow> state_dict \<Rightarrow> state_dict \<Rightarrow> bool \<Rightarrow> 'b \<Rightarrow> 'v list \<Rightarrow> 'g
     \<Rightarrow> 'v list \<times> 'g" where
  "apply_step env model optimizer amp b h g =
     (let new = train_step env amp b (tensor_values h model, tensor_values h optimizer, g)
      in (write_all (map snd optimizer) (fst (snd new)) (write_all (map snd model) (fst new) h),
          snd (snd new)))"

text \<open>
  One training batch. The output of the forward pass is computed before the optimizer
  step, so both losses and the count of correct predictions are those of the parameters
  before the step.
\<close>

definition train_batch ::
  "('v, 'b, 'g) torch \<Rightarrow> state_dict \<Rightarrow> state_dict \<Rightarrow> bool \<Rightarrow> 'b loader \<Rightarrow> int \<Rightarrow> nat
     \<Rightarrow> nat \<times> 'b \<Rightarrow> ('v, 'g) tv \<Rightarrow> error + ('v, 'g) tv" where
  "train_batch env model optimizer amp train_loader freq epoch ib s =
     (let batch_idx = fst ib; b = snd ib;
          pv = tensor_values (heap s) model;
          loss = cce_mean env True amp pv b;
          new = apply_step env model optimizer amp b (heap s) (scaler s);
          s' = s\<lparr> heap := fst new, scaler := snd new,
                  trainingLoss_perEpoch := trainingLoss_perEpoch s @ [cce_sum env True amp pv b],
                  num_correct := num_correct s + count_correct env True amp pv b,
                  num_samples := num_samples s + batch_len env b \<rparr>
      in ebind (print__batch_info ''train'' (int batch_idx) train_loader epoch loss freq)
           (\<lambda>l. Inr (emit l s')))"

text \<open>One validation batch: a forward pass in evaluation mode, no tensor is written.\<close>

definition val_batch ::
  "('v, 'b, 'g) torch \<Rightarrow> state_dict \<Rightarrow> bool \<Rightarrow> 'b loader \<Rightarrow> int \<Rightarrow> nat
     \<Rightarrow> nat \<times> 'b \<Rightarrow> ('v, 'g) tv \<Rightarrow> error + ('v, 'g) tv" where
  "val_batch env model amp val_loader freq epoch ib s =
     (let val_batch_idx = fst ib; b = snd ib;
          pv = tensor_values (heap s) model;
          val_loss = cce_sum env False amp pv b;
          s' = s\<lparr> valLoss_perEpoch := valLoss_perEpoch s @ [val_loss],
                  val_num_correct := val_num_correct s + count_correct env False amp pv b,
                  val_num_samples := val_num_samples s + batch_len env b \<rparr>
      in ebind (print__batch_info ''val'' (int val_batch_idx) val_loader epoch
                  (cce_mean env False amp pv b) freq)
           (\<lambda>l. Inr (emit l s')))"

text \<open>
  The new best checkpoint: deep copies of the model's and of the optimizer's state
  dictionary, under the keys of the source.
\<close>

definition capture :: "state_dict \<Rightarrow> state_dict \<Rightarrow> ('v, 'g) tv \<Rightarrow> ('v, 'g) tv" where
  "capture model optimizer s =
     (let c1 = deepcopy model (heap s);
          c2 = deepcopy optimizer (snd c1)
      in s\<lparr> heap := snd c2,
             checkpoint := Some [(''state_dict'', fst c1), (''optimizer'', fst c2)] \<rparr>)"

text \<open>\<^verbatim>\<open>xs[i]\<close> for an index that is not negative.\<close>

definition nth_opt :: "'a list \<Rightarrow> nat \<Rightarrow> 'a option" where
  "nth_opt xs i = (if i < length xs then Some (xs ! i) else None)"

text \<open>
  \<^verbatim>\<open>np.sum(xs, axis=0) / n\<close> for a list of floats and an integer: the sum of the empty
  list is 0, a \<open>NaN\<close> or infinite entry propagates, and a division by 0 gives \<open>NaN\<close> or an
  infinity.
\<close>

definition np_mean_over :: "fl list \<Rightarrow> nat \<Rightarrow> fl" where
  "np_mean_over xs n = fl_div (fl_sum xs) (Fin (real n))"

text \<open>
  The body of the loop over the epochs: the pass over the training loader, the pass over
  the validation loader, the two losses of the epoch, the checkpoint selection, the two
  accuracies (a division of Python integers, which raises on zero) and the summary line.
\<close>

definition epoch_end ::
  "state_dict \<Rightarrow> state_dict \<Rightarrow> 'b loader \<Rightarrow> 'b loader \<Rightarrow> nat \<Rightarrow> ('v, 'g) tv
     \<Rightarrow> error + ('v, 'g) tv" where
  "epoch_end model optimizer train_loader val_loader epoch s =
     (let tl = np_mean_over (trainingLoss_perEpoch s) (dataset_len train_loader);
          vl = np_mean_over (valLoss_perEpoch s) (dataset_len val_loader);
          s1 = s\<lparr> train_losses := train_losses s @ [tl], val_losses := val_losses s @ [vl] \<rparr>
      in case nth_opt (val_losses s1) epoch of
           None \<Rightarrow> Inl IndexError
         | Some cur \<Rightarrow>
             (let s2 = (if fl_lt cur (min_val_loss s1)
                        then capture model optimizer (s1\<lparr>min_val_loss := cur\<rparr>)
                        else s1)
              in if num_samples s2 = 0 then Inl ZeroDivisionError
                 else if val_num_samples s2 = 0 then Inl ZeroDivisionError
                 else
                   (let ta = real (num_correct s2) / real (num_samples s2);
                        va = real (val_num_correct s2) / real (val_num_samples s2)
                    in Inr (s2\<lparr> train_accs := train_accs s2 @ [ta],
                                 val_accs := val_accs s2 @ [va],
                                 stdout := stdout s2 @ [EpochLine epoch tl vl ta va] \<rparr>))))"

definition reset_epoch :: "('v, 'g) tv \<Rightarrow> ('v, 'g) tv" where
  "reset_epoch s =
     s\<lparr> trainingLoss_perEpoch := [], valLoss_perEpoch := [], num_correct := 0,
        num_samples := 0, val_num_correct := 0, val_num_samples := 0 \<rparr>"

definition train_pass ::
  "('v, 'b, 'g) torch \<Rightarrow> state_dict \<Rightarrow> state_dict \<Rightarrow> bool \<Rightarrow> 'b loader \<Rightarrow> int \<Rightarrow> nat
     \<Rightarrow> ('v, 'g) tv \<Rightarrow> error + ('v, 'g) tv" where
  "train_pass env model optimizer amp train_loader freq epoch s =
     efold (train_batch env model optimizer amp train_loader freq epoch)
       (enumerate 0 (batches train_loader epoch)) s"

definition val_pass ::
  "('v, 'b, 'g) torch \<Rightarrow> state_dict \<Rightarrow> bool \<Rightarrow> 'b loader \<Rightarrow> int \<Rightarrow> nat
     \<Rightarrow> ('v, 'g) tv \<Rightarrow> error + ('v, 'g) tv" where
  "val_pass env model amp val_loader freq epoch s =
     efold (val_batch env model amp val_loader freq epoch)
       (enumerate 0 (batches val_loader epoch)) s"

definition epoch_body ::
  "('v, 'b, 'g) torch \<Rightarrow> state_dict \<Rightarrow> state_dict \<Rightarrow> bool \<Rightarrow> 'b loader \<Rightarrow> 'b loader
     \<Rightarrow> int \<Rightarrow> int \<Rightarrow> nat \<Rightarrow> ('v, 'g) tv \<Rightarrow> error + ('v, 'g) tv" where
  "epoch_body env model optimizer amp train_loader val_loader freq_train freq_val epoch s =
     ebind (train_pass env model optimizer amp train_loader freq_train epoch (reset_epoch s))
       (\<lambda>s1. ebind (val_pass env model amp val_loader freq_val epoch s1)
                (epoch_end model optimizer train_loader val_loader epoch))"

text \<open>The state after the first \<open>n\<close> epochs.\<close>

definition run_epochs ::
  "('v, 'b, 'g) torch \<Rightarrow> state_dict \<Rightarrow> state_dict \<Rightarrow> bool \<Rightarrow> 'b loader \<Rightarrow> 'b loader
     \<Rightarrow> int \<Rightarrow> int \<Rightarrow> nat \<Rightarrow> 'v list \<Rightarrow> error + ('v, 'g) tv" where
  "run_epochs env model optimizer amp train_loader val_loader freq_train freq_val n h =
     efold (epoch_body env model optimizer amp train_loader val_loader freq_train freq_val)
       [0..<n] (tv_init env amp h)"

text \<open>
  What \<^verbatim>\<open>train_and_validate\<close> returns (the start time is left out), with the store and
  the console as it leaves them.
\<close>

record 'v tv_result =
  rv_checkpoint :: checkpoint
  rv_train_losses :: "fl list"
  rv_val_losses :: "fl list"
  rv_train_accs :: "real list"
  rv_val_accs :: "real list"
  rv_heap :: "'v list"
  rv_stdout :: "out list"

text \<open>
  \<^verbatim>\<open>train_and_validate\<close> with \<open>epochs\<close> for \<^verbatim>\<open>num_epochs\<close> and \<open>amp\<close> for
  \<^verbatim>\<open>use_amp\<close>: \<^verbatim>\<open>range(num_epochs)\<close> is empty for a number that is not
  positive; the \<^verbatim>\<open>return\<close> reads the local variable \<^verbatim>\<open>checkpoint\<close>, which raises
  \<^verbatim>\<open>UnboundLocalError\<close> when no epoch has bound it.
\<close>

definition train_and_validate ::
  "('v, 'b, 'g) torch \<Rightarrow> state_dict \<Rightarrow> state_dict \<Rightarrow> int \<Rightarrow> bool \<Rightarrow> 'b loader \<Rightarrow> 'b loader
     \<Rightarrow> int \<Rightarrow> int \<Rightarrow> 'v list \<Rightarrow> error + 'v tv_result" where
  "train_and_validate env model optimizer epochs amp train_loader val_loader
       freq_train freq_val h =
     ebind (run_epochs env model optimizer amp train_loader val_loader freq_train freq_val
              (nat epochs) h)
       (\<lambda>s. case checkpoint s of
              None \<Rightarrow> Inl UnboundLocalError
            | Some c \<Rightarrow>
                Inr \<lparr> rv_checkpoint = c, rv_train_losses = train_losses s,
                      rv_val_losses = val_losses s, rv_train_accs = train_accs s,
                      rv_val_accs = val_accs s, rv_heap = heap s, rv_stdout = stdout s \<rparr>)"


section \<open>Loading a checkpoint\<close>

text \<open>
  \<^verbatim>\<open>Module.load_state_dict\<close> (strict): the names of the given dictionary must be those of
  the model, else \<^verbatim>\<open>RuntimeError\<close>; then each parameter is overwritten in place, one
  after the other, with the value of the tensor of the same name (shapes are not
  represented).
\<close>

definition copy_params :: "state_dict \<Rightarrow> state_dict \<Rightarrow> 'v list \<Rightarrow> 'v list" where
  "copy_params sd params h =
     foldl (\<lambda>h' e. case map_of sd (fst e) of
                       None \<Rightarrow> h'
                     | Some src \<Rightarrow> h'[snd e := h' ! src]) h params"

definition load_state_dict :: "state_dict \<Rightarrow> state_dict \<Rightarrow> 'v list \<Rightarrow> error + 'v list" where
  "load_state_dict model sd h =
     (if set (map fst model) \<noteq> set (map fst sd) then Inl RuntimeError
      else Inr (copy_params sd model h))"

text \<open>
  \<^verbatim>\<open>load_checkpoint\<close>: \<^verbatim>\<open>checkpoint[key]\<close> raises \<^verbatim>\<open>KeyError\<close> on a missing key.
  What \<^verbatim>\<open>Optimizer.load_state_dict\<close> does differs between the versions of torch (it
  copies the given tensors or keeps them), so it is a parameter here: from the optimizer's
  state dictionary, the given one and the store it gives the optimizer's new state
  dictionary and the new store, or an error. The result of \<open>load_checkpoint\<close> is the store
  and the optimizer (if one was passed) after the call.
\<close>

definition load_checkpoint ::
  "(state_dict \<Rightarrow> state_dict \<Rightarrow> 'v list \<Rightarrow> error + (state_dict \<times> 'v list))
     \<Rightarrow> state_dict \<Rightarrow> checkpoint \<Rightarrow> state_dict option \<Rightarrow> 'v list
     \<Rightarrow> error + ('v list \<times> state_dict option)" where
  "load_checkpoint optimizer_load_state_dict model ckpt optimizer h =
     (case map_of ckpt ''state_dict'' of
        None \<Rightarrow> Inl KeyError
      | Some sd \<Rightarrow>
          ebind (load_state_dict model sd h)
            (\<lambda>h1. case optimizer of
                     None \<Rightarrow> Inr (h1, None)
                   | Some opt \<Rightarrow>
                       (case map_of ckpt ''optimizer'' of
                          None \<Rightarrow> Inl KeyError
                        | Some od \<Rightarrow>
                            ebind (optimizer_load_state_dict opt od h1)
                              (\<lambda>r. Inr (snd r, Some (fst r))))))"


section \<open>Invariants used in the proofs\<close>

text \<open>
  The matrix \<open>m\<close> is square of size \<open>n\<close> and its cell \<open>[i, j]\<close> holds the whole number
  \<open>c i j\<close>.
\<close>

definition cm_rep :: "nat \<Rightarrow> fl list list \<Rightarrow> (nat \<Rightarrow> nat \<Rightarrow> nat) \<Rightarrow> bool" where
  "cm_rep n m c =
     (length m = n \<and> (\<forall>i<n. length (m ! i) = n \<and> (\<forall>j<n. m ! i ! j = Fin (real (c i j)))))"


text \<open>
  The sum-reduction losses of the batches of one training pass that starts in store \<open>h\<close>
  with scaler \<open>g\<close>: the loss of a batch is that of the parameters as the steps on the
  batches before it have left them.
\<close>

fun batch_sum_losses ::
  "('v, 'b, 'g) torch \<Rightarrow> state_dict \<Rightarrow> state_dict \<Rightarrow> bool \<Rightarrow> 'b list \<Rightarrow> 'v list \<Rightarrow> 'g
     \<Rightarrow> fl list" where
  "batch_sum_losses env model optimizer amp [] h g = []"
| "batch_sum_losses env model optimizer amp (b # bs) h g =
     cce_sum env True amp (tensor_values h model) b
       # batch_sum_losses env model optimizer amp bs
           (fst (apply_step env model optimizer amp b h g))
           (snd (apply_step env model optimizer amp b h g))"


text \<open>
  Two states of the loop agree on the variables that only the end of an epoch assigns.
\<close>

definition same_outer :: "('v, 'g) tv \<Rightarrow> ('v, 'g) tv \<Rightarrow> bool" where
  "same_outer s t =
     (min_val_loss t = min_val_loss s \<and> checkpoint t = checkpoint s
      \<and> train_losses t = train_losses s \<and> val_losses t = val_losses s
      \<and> train_accs t = train_accs s \<and> val_accs t = val_accs s)"

text \<open>
  The checkpoint that a capture in store \<open>h\<close> binds, and the store after that capture:
  the copy of the model's state dictionary is made first, that of the optimizer's second.
\<close>

definition captured_checkpoint :: "state_dict \<Rightarrow> state_dict \<Rightarrow> 'v list \<Rightarrow> checkpoint" where
  "captured_checkpoint M O' h =
     [(''state_dict'', fst (deepcopy M h)), (''optimizer'', fst (deepcopy O' (snd (deepcopy M h))))]"

definition captured_heap :: "state_dict \<Rightarrow> state_dict \<Rightarrow> 'v list \<Rightarrow> 'v list" where
  "captured_heap M O' h = snd (deepcopy O' (snd (deepcopy M h)))"

text \<open>
  From store \<open>h\<close> to store \<open>h'\<close> no tensor has been freed, and every tensor of \<open>h\<close>
  outside the addresses \<open>live\<close> has kept its value.
\<close>

definition heap_frame :: "addr set \<Rightarrow> 'v list \<Rightarrow> 'v list \<Rightarrow> bool" where
  "heap_frame live h h' =
     (length h \<le> length h' \<and> (\<forall>a<length h. a \<notin> live \<longrightarrow> h' ! a = h ! a))"

text \<open>
  What one epoch does, from state \<open>s\<close> to state \<open>s'\<close>, with \<open>s1\<close> the state after the
  training pass and \<open>s2\<close> the state after the validation pass.
\<close>

definition epoch_summary ::
  "('v, 'b, 'g) torch \<Rightarrow> state_dict \<Rightarrow> state_dict \<Rightarrow> bool \<Rightarrow> 'b loader \<Rightarrow> 'b loader
     \<Rightarrow> int \<Rightarrow> int \<Rightarrow> nat \<Rightarrow> ('v, 'g) tv \<Rightarrow> ('v, 'g) tv \<Rightarrow> ('v, 'g) tv \<Rightarrow> ('v, 'g) tv
     \<Rightarrow> bool" where
  "epoch_summary env M O' amp TL VL ft fv e s s' s1 s2 =
     (train_pass env M O' amp TL ft e (reset_epoch s) = Inr s1
    \<and> val_pass env M amp VL fv e s1 = Inr s2
    \<and> dataset_len TL \<noteq> 0 \<and> dataset_len VL \<noteq> 0 \<and> ft \<noteq> 0 \<and> fv \<noteq> 0
    \<and> trainingLoss_perEpoch s2 = batch_sum_losses env M O' amp (batches TL e) (heap s) (scaler s)
    \<and> valLoss_perEpoch s2 = map (cce_sum env False amp (tensor_values (heap s1) M)) (batches VL e)
    \<and> train_losses s' =
        train_losses s @ [np_mean_over (trainingLoss_perEpoch s2) (dataset_len TL)]
    \<and> val_losses s' =
        val_losses s @ [np_mean_over (valLoss_perEpoch s2) (dataset_len VL)]
    \<and> train_accs s' = train_accs s @ [real (num_correct s2) / real (num_samples s2)]
    \<and> val_accs s' = val_accs s @ [real (val_num_correct s2) / real (val_num_samples s2)]
    \<and> heap_frame (snd ` set M \<union> snd ` set O') (heap s) (heap s1)
    \<and> (fl_lt (np_mean_over (valLoss_perEpoch s2) (dataset_len VL)) (min_val_loss s)
        \<longrightarrow> min_val_loss s' = np_mean_over (valLoss_perEpoch s2) (dataset_len VL)
           \<and> checkpoint s' = Some (captured_checkpoint M O' (heap s1))
           \<and> heap s' = captured_heap M O' (heap s1))
    \<and> (\<not> fl_lt (np_mean_over (valLoss_perEpoch s2) (dataset_len VL)) (min_val_loss s)
        \<longrightarrow> min_val_loss s' = min_val_loss s \<and> checkpoint s' = checkpoint s
           \<and> heap s' = heap s1))"

text \<open>
  Epoch \<open>k\<close> is the earliest epoch of least validation loss in the list \<open>vl\<close>, among the
  epochs whose loss is a number: its loss is below positive infinity, at most every loss
  that is not \<open>NaN\<close>, and strictly below every earlier loss that is not \<open>NaN\<close>.
\<close>

definition is_best :: "fl list \<Rightarrow> nat \<Rightarrow> bool" where
  "is_best vl k =
     (k < length vl \<and> fl_lt (vl ! k) PInf
      \<and> (\<forall>j<length vl. vl ! j \<noteq> NaN \<longrightarrow> fl_le (vl ! k) (vl ! j))
      \<and> (\<forall>j<k. vl ! j \<noteq> NaN \<longrightarrow> fl_lt (vl ! k) (vl ! j)))"

text \<open>
  The checkpoint \<open>c\<close> is the one that the end of epoch \<open>k\<close> has captured: the validation
  loss of that epoch was strictly less than the running minimum, and \<open>c\<close> is the pair of
  deep copies made in the store that the passes of epoch \<open>k\<close> have left.
\<close>

definition captured_at ::
  "('v, 'b, 'g) torch \<Rightarrow> state_dict \<Rightarrow> state_dict \<Rightarrow> bool \<Rightarrow> 'b loader \<Rightarrow> 'b loader
     \<Rightarrow> int \<Rightarrow> int \<Rightarrow> 'v list \<Rightarrow> nat \<Rightarrow> checkpoint \<Rightarrow> bool" where
  "captured_at env M O' amp TL VL ft fv h k c =
     (\<exists>sk sk' s1.
        run_epochs env M O' amp TL VL ft fv k h = Inr sk
      \<and> run_epochs env M O' amp TL VL ft fv (Suc k) h = Inr sk'
      \<and> train_pass env M O' amp TL ft k (reset_epoch sk) = Inr s1
      \<and> fl_lt (val_losses sk' ! k) (min_val_loss sk)
      \<and> min_val_loss sk' = val_losses sk' ! k
      \<and> checkpoint sk' = Some c
      \<and> c = captured_checkpoint M O' (heap s1)
      \<and> heap sk' = captured_heap M O' (heap s1))"


section \<open>Two small instances\<close>

text \<open>
  One parameter \<open>w\<close> at address 0 and one optimizer tensor \<open>m\<close> at address 1, both
  integers. A training step on batch \<open>b\<close> adds \<open>b\<close> to \<open>w\<close> and 1 to \<open>m\<close>; the sum loss on
  a batch is the distance of \<open>w\<close> to \<open>b\<close>. Each epoch trains on the batches 1 and 0 and
  validates on the batch 2, so the validation losses of three epochs are 1/2, 0 and 1/2.
\<close>

definition demo_env :: "(int, int, nat) torch" where
  "demo_env =
     \<lparr> grad_scaler = (\<lambda>amp. 0),
       train_step = (\<lambda>amp b vs. (map (\<lambda>x. x + b) (fst vs), map (\<lambda>x. x + 1) (fst (snd vs)),
                                  Suc (snd (snd vs)))),
       cce_sum = (\<lambda>training amp pv b. Fin (real_of_int \<bar>sum_list pv - b\<bar>)),
       cce_mean = (\<lambda>training amp pv b. Fin (real_of_int \<bar>sum_list pv - b\<bar> / 2)),
       count_correct = (\<lambda>training amp pv b. 1),
       batch_len = (\<lambda>b. 2) \<rparr>"

definition demo_train :: "int loader" where
  "demo_train = \<lparr>dataset_len = 4, loader_batch_size = 2, loader_len = 2, batches = (\<lambda>e. [1, 0])\<rparr>"

definition demo_val :: "int loader" where
  "demo_val = \<lparr>dataset_len = 2, loader_batch_size = 2, loader_len = 1, batches = (\<lambda>e. [2])\<rparr>"

definition demo_model :: state_dict where
  "demo_model = [(''w'', 0)]"

definition demo_optimizer :: state_dict where
  "demo_optimizer = [(''m'', 1)]"

definition demo_epochs :: "nat \<Rightarrow> error + (int, nat) tv" where
  "demo_epochs n =
     run_epochs demo_env demo_model demo_optimizer False demo_train demo_val 1 1 n [0, 0]"

definition demo_run :: "int \<Rightarrow> error + int tv_result" where
  "demo_run epochs =
     train_and_validate demo_env demo_model demo_optimizer epochs False demo_train demo_val 1 1
       [0, 0]"

text \<open>
  The same model in a training that diverges: once \<open>w\<close> has reached 2 every loss is
  \<open>NaN\<close>. Started with \<open>w = 0\<close> the validation losses of two epochs are 1/2 and \<open>NaN\<close>;
  started with \<open>w = 5\<close> every loss is \<open>NaN\<close>.
\<close>

definition diverging_env :: "(int, int, nat) torch" where
  "diverging_env =
     demo_env
       \<lparr> cce_sum := (\<lambda>training amp pv b.
                       if 2 \<le> sum_list pv then NaN else Fin (real_of_int \<bar>sum_list pv - b\<bar>)),
         cce_mean := (\<lambda>training amp pv b.
                       if 2 \<le> sum_list pv then NaN
                       else Fin (real_of_int \<bar>sum_list pv - b\<bar> / 2)) \<rparr>"

definition diverging_epochs :: "int \<Rightarrow> nat \<Rightarrow> error + (int, nat) tv" where
  "diverging_epochs w n =
     run_epochs diverging_env demo_model demo_optimizer False demo_train demo_val 1 1 n [w, 0]"

definition diverging_run :: "int \<Rightarrow> int \<Rightarrow> error + int tv_result" where
  "diverging_run w epochs =
     train_and_validate diverging_env demo_model demo_optimizer epochs False demo_train demo_val
       1 1 [w, 0]"


section \<open>Properties of the option check and of the progress line\<close>

lemma str_lower_modes: "str_lower ''train'' = ''train''" "str_lower ''val'' = ''val''"
  by (simp_all add: str_lower_def char_lower_def)

text \<open>
  C9. The claim: a configuration with the documented default dropout rate 0.0 passes
  \<open>check_args\<close>. The code does otherwise: the third assertion is
  \<^verbatim>\<open>0 < args.dropout_rate < 1\<close>, strict on both sides, so the namespace of the
  defaults of \<^verbatim>\<open>TrainOptions\<close> is rejected with \<^verbatim>\<open>AssertionError\<close>.
\<close>

theorem check_args_rejects_defaults: "check_args default_args = Inl AssertionError"
  by (simp add: check_args_def default_args_def)

text \<open>
  C6, as stated, fails: the test for the final batch is nested inside the test of the
  stride, so a final batch whose index is not a multiple of the frequency is not reported.
  Here the loader has two batches, the frequency is 2, and the batch of index 1 is the
  final one.
\<close>

theorem final_batch_off_stride_not_reported:
  "print__batch_info ''train'' 1
     \<lparr>dataset_len = 3, loader_batch_size = 2, loader_len = 2, batches = (\<lambda>k. [(), ()])\<rparr>
     0 (Fin 0) 2 = Inr None
   \<and> (1::int) = int (loader_len
        \<lparr>dataset_len = 3, loader_batch_size = 2, loader_len = 2, batches = (\<lambda>k. [(), ()])\<rparr>) - 1"
  by (simp add: print__batch_info_def str_lower_modes)

text \<open>
  C6, amended. For a mode that is "train" or "val" up to case, a frequency other than 0
  and a dataset that is not empty, \<open>print__batch_info\<close> prints a line exactly when the
  batch index is a multiple of the frequency, the final batch included only in that case.
  The line of the final batch reports the size of the dataset as its count of samples, any
  other line reports (batch index + 1) times the batch size.
\<close>

theorem print__batch_info_on_stride:
  assumes "str_lower mode \<in> {''train'', ''val''}" and "frequency \<noteq> 0"
    and "dataset_len ldr \<noteq> 0"
  shows "print__batch_info mode batch_idx ldr epoch loss frequency =
     (if batch_idx mod frequency = 0
      then Inr (Some \<lparr> ln_mode = mode, ln_epoch = epoch,
              ln_current_samples =
                (if batch_idx = int (loader_len ldr) - 1 then int (dataset_len ldr)
                 else (batch_idx + 1) * int (loader_batch_size ldr)),
              ln_total_samples = int (dataset_len ldr),
              ln_percentage =
                100 * real_of_int
                  (if batch_idx = int (loader_len ldr) - 1 then int (dataset_len ldr)
                   else (batch_idx + 1) * int (loader_batch_size ldr))
                / real (dataset_len ldr),
              ln_loss = loss \<rparr>)
      else Inr None)"
  using assms by (simp add: print__batch_info_def format_line_def ebind_def Let_def)

theorem print__batch_info_on_stride_witness:
  "str_lower ''val'' \<in> {''train'', ''val''} \<and> (2::int) \<noteq> 0
   \<and> dataset_len \<lparr>dataset_len = 5, loader_batch_size = 2, loader_len = 3,
                    batches = (\<lambda>k. [(), (), ()])\<rparr> \<noteq> 0
   \<and> print__batch_info ''val'' 2
        \<lparr>dataset_len = 5, loader_batch_size = 2, loader_len = 3, batches = (\<lambda>k. [(), (), ()])\<rparr>
        0 (Fin 0) 2
      = Inr (Some \<lparr> ln_mode = ''val'', ln_epoch = 0, ln_current_samples = 5,
                     ln_total_samples = 5, ln_percentage = 100, ln_loss = Fin 0 \<rparr>)"
  using print__batch_info_on_stride [of "''val''" 2
      "\<lparr>dataset_len = 5, loader_batch_size = 2, loader_len = 3, batches = (\<lambda>k. [(), (), ()])\<rparr>"
      2 0 "Fin 0"]
  by (simp add: str_lower_modes)


section \<open>Properties of the confusion matrix\<close>

text \<open>
  C8. There is an evaluated set in which a class never appears as a true label and whose
  row is divided by a row sum of zero: no error is raised, and the row of the returned
  matrix is \<open>NaN\<close>. Here there are two classes and both samples have the true label 0.
\<close>

theorem absent_class_row_is_nan:
  "produce_and_print_confusion_matrix 2 [((), [0, 0])] (\<lambda>x. [0, 1])
     = Inr [[Fin (1 / 2), Fin (1 / 2)], [NaN, NaN]]
   \<and> 1 \<notin> fst ` set (cm_samples [((), [0, 0])] (\<lambda>x. [0, 1]))"
  by (simp add: produce_and_print_confusion_matrix_def confusion_counts_def cm_batch_def
      cm_increment_def py_index_def zeros_def normalize_rows_def normalize_row_def ebind_def
      numeral_2_eq_2 upt_rec cm_samples_def fl_sum_def)

lemma efold_append: "efold f (xs @ ys) s = ebind (efold f xs s) (efold f ys)"
  by (induction xs arbitrary: s) (auto simp: ebind_def split: sum.splits)

lemma py_index_lt: "py_index n x = Some i \<Longrightarrow> i < n"
  by (auto simp: py_index_def split: if_splits)

lemma cm_rep_zeros: "cm_rep n (zeros n n) (\<lambda>i j. 0)"
  by (simp add: cm_rep_def zeros_def)

lemma cm_increment_rep:
  assumes "cm_rep n m c" and "cm_increment n m tp = Inr m'"
  shows "cm_rep n m' (\<lambda>i j. c i j + (if py_index n (fst tp) = Some i \<and> py_index n (snd tp) = Some j then 1 else 0))"
proof -
  from assms(2) obtain a b where a: "py_index n (fst tp) = Some a" and b: "py_index n (snd tp) = Some b"
    and m': "m' = m[a := (m ! a)[b := fl_add (m ! a ! b) (Fin 1)]]"
    by (auto simp: cm_increment_def split: option.splits)
  have an: "a < n" and bn: "b < n" using a b by (auto dest: py_index_lt)
  show ?thesis
    using assms(1) an bn unfolding cm_rep_def m' a b
    by (auto simp: nth_list_update)
qed

lemma cm_efold_rep:
  "cm_rep n m c \<Longrightarrow> efold (\<lambda>tp m'. cm_increment n m' tp) samples m = Inr r
   \<Longrightarrow> cm_rep n r (\<lambda>i j. c i j + cell_count n samples i j)"
proof (induction samples arbitrary: m c)
  case Nil
  then show ?case by (simp add: cell_count_def)
next
  case (Cons tp samples)
  from Cons.prems(2) obtain m1 where m1: "cm_increment n m tp = Inr m1"
    and r: "efold (\<lambda>tp m'. cm_increment n m' tp) samples m1 = Inr r"
    by (auto split: sum.splits)
  from Cons.IH [OF cm_increment_rep [OF Cons.prems(1) m1] r]
  show ?case
    by (rule back_subst [where P = "cm_rep n r"]) (auto simp: cell_count_def fun_eq_iff)
qed

lemma cm_batches_flat:
  "efold (cm_batch n model) bs m = efold (\<lambda>tp m'. cm_increment n m' tp) (cm_samples bs model) m"
proof (induction bs arbitrary: m)
  case Nil
  then show ?case by (simp add: cm_samples_def)
next
  case (Cons b bs)
  then show ?case
    by (simp add: cm_samples_def efold_append cm_batch_def ebind_def split: sum.splits)
qed

lemma confusion_counts_rep:
  "confusion_counts n loader model = Inr m \<Longrightarrow> cm_rep n m (cell_count n (cm_samples loader model))"
  using cm_efold_rep [OF cm_rep_zeros, of n "cm_samples loader model" m]
  by (simp add: confusion_counts_def cm_batches_flat)

lemma normalize_rows_prefix:
  "k \<le> length m \<Longrightarrow>
   foldl (\<lambda>m' i. m'[i := normalize_row (m' ! i)]) m [0..<k] = map normalize_row (take k m) @ drop k m"
proof (induction k)
  case 0
  then show ?case by simp
next
  case (Suc k)
  then have k: "k < length m" by simp
  let ?A = "map normalize_row (take k m)"
  have lenA: "length ?A = k" using k by simp
  have d: "drop k m = m ! k # drop (Suc k) m" using k by (simp add: Cons_nth_drop_Suc)
  have t: "take (Suc k) m = take k m @ [m ! k]" using k by (simp add: take_Suc_conv_app_nth)
  have "(?A @ m ! k # drop (Suc k) m)[length ?A := normalize_row ((?A @ m ! k # drop (Suc k) m) ! length ?A)]
      = ?A @ normalize_row (m ! k) # drop (Suc k) m"
    by (simp only: list_update_length nth_append_length)
  then have "(?A @ drop k m)[k := normalize_row ((?A @ drop k m) ! k)]
      = map normalize_row (take (Suc k) m) @ drop (Suc k) m"
    unfolding lenA d t by simp
  with Suc show ?case by simp
qed

lemma normalize_rows_map: "length m = n \<Longrightarrow> normalize_rows n m = map normalize_row m"
  by (simp add: normalize_rows_def normalize_rows_prefix)

lemma fl_sum_Fin_aux: "foldl fl_add (Fin a) (map Fin xs) = Fin (a + sum_list xs)"
  by (induction xs arbitrary: a) (simp_all add: add.assoc)

lemma fl_sum_Fin: "fl_sum (map Fin xs) = Fin (sum_list xs)"
  by (simp add: fl_sum_def fl_sum_Fin_aux)

lemma normalize_row_Fin:
  assumes "sum_list xs \<noteq> 0"
  shows "normalize_row (map Fin xs) = map (\<lambda>x. Fin (x / sum_list xs)) xs"
  using assms by (simp add: normalize_row_def fl_sum_Fin)

lemma sum_list_div: "sum_list (map (\<lambda>x. x / c) xs) = sum_list xs / (c::real)"
  by (induction xs) (simp_all add: add_divide_distrib)

lemma normalized_sum:
  assumes "sum_list xs \<noteq> 0"
  shows "fl_sum (normalize_row (map Fin xs)) = Fin 1"
proof -
  have "fl_sum (map Fin (map (\<lambda>x. x / sum_list xs) xs)) = Fin (sum_list (map (\<lambda>x. x / sum_list xs) xs))"
    by (rule fl_sum_Fin)
  moreover have "sum_list (map (\<lambda>x. x / sum_list xs) xs) = sum_list xs / sum_list xs"
    by (rule sum_list_div) 
  ultimately show ?thesis using assms by (simp add: normalize_row_Fin o_def)
qed

lemma cm_efold_valid:
  "efold (\<lambda>tp m'. cm_increment n m' tp) samples m = Inr r \<Longrightarrow> tp \<in> set samples
   \<Longrightarrow> \<exists>a b. py_index n (fst tp) = Some a \<and> py_index n (snd tp) = Some b"
proof (induction samples arbitrary: m)
  case Nil
  then show ?case by simp
next
  case (Cons x samples)
  from Cons.prems(1) obtain m1 where m1: "cm_increment n m x = Inr m1"
    and r: "efold (\<lambda>tp m'. cm_increment n m' tp) samples m1 = Inr r"
    by (auto split: sum.splits)
  show ?case
  proof (cases "tp = x")
    case True
    with m1 show ?thesis by (auto simp: cm_increment_def split: option.splits)
  next
    case False
    with Cons.prems(2) have "tp \<in> set samples" by simp
    from Cons.IH [OF r this] show ?thesis .
  qed
qed

lemma real_sum_list: "sum_list (map (\<lambda>j. real (f j)) js) = real (sum_list (map f js))"
  by (induction js) simp_all

lemma cell_count_pos:
  "tp \<in> set samples \<Longrightarrow> py_index n (fst tp) = Some i \<Longrightarrow> py_index n (snd tp) = Some j
   \<Longrightarrow> 0 < cell_count n samples i j"
  by (auto simp: cell_count_def filter_empty_conv)

lemma py_index_nat: "i < n \<Longrightarrow> py_index n (int i) = Some i"
  by (simp add: py_index_def)

lemma rep_row:
  assumes "cm_rep n m c" and "i < n"
  shows "m ! i = map Fin (map (\<lambda>j. real (c i j)) [0..<n])"
  using assms by (auto simp: cm_rep_def list_eq_iff_nth_eq)

text \<open>
  C7. When the function returns and every class appears at least once as a true label,
  the accumulated matrix holds in cell \<open>[i, j]\<close> the number of samples with true class
  \<open>i\<close> and predicted class \<open>j\<close>; the returned matrix holds in cell \<open>[i, j]\<close> that number
  divided by the sum of row \<open>i\<close> (the number of samples with true class \<open>i\<close>, which is not
  0), and every row of the returned matrix sums to 1 (in exact arithmetic on the finite
  values).
\<close>

theorem confusion_matrix_rows_sum_to_one:
  assumes "produce_and_print_confusion_matrix n loader model = Inr r"
    and "\<forall>c<n. int c \<in> fst ` set (cm_samples loader model)"
  shows "\<exists>m. confusion_counts n loader model = Inr m
           \<and> (\<forall>i<n. \<forall>j<n. m ! i ! j = Fin (real (cell_count n (cm_samples loader model) i j)))
           \<and> length r = n
           \<and> (\<forall>i<n. length (r ! i) = n \<and> fl_sum (r ! i) = Fin 1
                 \<and> fl_sum (m ! i)
                     = Fin (real (sum_list (map (cell_count n (cm_samples loader model) i) [0..<n])))
                 \<and> 0 < sum_list (map (cell_count n (cm_samples loader model) i) [0..<n])
                 \<and> (\<forall>j<n. r ! i ! j = fl_div (m ! i ! j) (fl_sum (m ! i))
                        \<and> r ! i ! j
                            = Fin (real (cell_count n (cm_samples loader model) i j)
                                   / real (sum_list (map (cell_count n (cm_samples loader model) i)
                                                      [0..<n])))))"
proof -
  let ?S = "cm_samples loader model"
  let ?C = "cell_count n ?S"
  from assms(1) obtain m where m: "confusion_counts n loader model = Inr m"
    and r: "r = normalize_rows n m"
    by (auto simp: produce_and_print_confusion_matrix_def ebind_def split: sum.splits)
  have rep: "cm_rep n m ?C" using m by (rule confusion_counts_rep)
  then have len: "length m = n" by (simp add: cm_rep_def)
  have r_map: "r = map normalize_row m" using r len by (simp add: normalize_rows_map)
  have flat: "efold (\<lambda>tp m'. cm_increment n m' tp) ?S (zeros n n) = Inr m"
    using m by (simp add: confusion_counts_def cm_batches_flat)
  have rows: "length (r ! i) = n \<and> fl_sum (r ! i) = Fin 1
                 \<and> fl_sum (m ! i) = Fin (real (sum_list (map (?C i) [0..<n])))
                 \<and> 0 < sum_list (map (?C i) [0..<n])
                 \<and> (\<forall>j<n. r ! i ! j = fl_div (m ! i ! j) (fl_sum (m ! i))
                        \<and> r ! i ! j
                            = Fin (real (?C i j) / real (sum_list (map (?C i) [0..<n]))))"
    if i: "i < n" for i
  proof -
    let ?xs = "map (\<lambda>j. real (?C i j)) [0..<n]"
    have row: "m ! i = map Fin ?xs" using rep i by (rule rep_row)
    from assms(2) i obtain tp where tp: "tp \<in> set ?S" and t: "fst tp = int i" by auto
    from cm_efold_valid [OF flat tp] obtain a b
      where a: "py_index n (fst tp) = Some a" and b: "py_index n (snd tp) = Some b" by blast
    have ai: "a = i" using a t i by (simp add: py_index_nat)
    have bn: "b < n" using b by (rule py_index_lt)
    have pos: "0 < ?C i b" using tp a b ai by (auto intro: cell_count_pos)
    have "?C i b \<in> set (map (?C i) [0..<n])" using bn by simp
    then have "?C i b \<le> sum_list (map (?C i) [0..<n])" by (simp add: member_le_sum_list)
    with pos have tot: "0 < sum_list (map (?C i) [0..<n])" by linarith
    then have "0 < real (sum_list (map (?C i) [0..<n]))" by (simp only: of_nat_0_less_iff)
    moreover have sx: "sum_list ?xs = real (sum_list (map (?C i) [0..<n]))"
      by (rule real_sum_list)
    ultimately have nz: "sum_list ?xs \<noteq> 0" by linarith
    have ri: "r ! i = normalize_row (map Fin ?xs)" using r_map i len row by simp
    have l: "length (r ! i) = n" unfolding ri by (simp add: normalize_row_def)
    have one: "fl_sum (r ! i) = Fin 1" unfolding ri using nz by (rule normalized_sum)
    have sm: "fl_sum (m ! i) = Fin (real (sum_list (map (?C i) [0..<n])))"
      unfolding row sx [symmetric] by (rule fl_sum_Fin)
    have cells: "r ! i ! j = fl_div (m ! i ! j) (fl_sum (m ! i))
                 \<and> r ! i ! j = Fin (real (?C i j) / real (sum_list (map (?C i) [0..<n])))"
      if j: "j < n" for j
    proof -
      have mj: "m ! i ! j = Fin (real (?C i j))" using rep i j by (simp add: cm_rep_def)
      have lm: "length (m ! i) = n" using rep i by (simp add: cm_rep_def)
      have "r ! i ! j = fl_div (m ! i ! j) (fl_sum (m ! i))"
        using r_map i len lm j by (simp add: normalize_row_def)
      moreover have "fl_div (m ! i ! j) (fl_sum (m ! i))
          = Fin (real (?C i j) / real (sum_list (map (?C i) [0..<n])))"
      proof -
        from tot have "0 < real (sum_list (map (?C i) [0..<n]))"
          by (simp only: of_nat_0_less_iff)
        then have "real (sum_list (map (?C i) [0..<n])) \<noteq> 0" by linarith
        then show ?thesis unfolding mj sm by (simp only: fl_div.simps if_False)
      qed
      ultimately show ?thesis by simp
    qed
    from l one sm tot cells show ?thesis by blast
  qed
  have cells: "\<forall>i<n. \<forall>j<n. m ! i ! j = Fin (real (?C i j))"
    using rep by (simp add: cm_rep_def)
  have len_r: "length r = n" using r_map len by simp
  from m cells len_r rows show ?thesis by blast
qed

theorem confusion_matrix_rows_sum_to_one_witness:
  "produce_and_print_confusion_matrix 2 [([0, 1], [0, 1]), ([1], [1])] (\<lambda>x. x)
     = Inr [[Fin 1, Fin 0], [Fin 0, Fin 1]]
   \<and> int 0 \<in> fst ` set (cm_samples [([0, 1], [0, 1]), ([1], [1])] (\<lambda>x. x))
   \<and> int 1 \<in> fst ` set (cm_samples [([0, 1], [0, 1]), ([1], [1])] (\<lambda>x. x))
   \<and> confusion_counts 2 [([0, 1], [0, 1]), ([1], [1])] (\<lambda>x. x)
     = Inr [[Fin 1, Fin 0], [Fin 0, Fin 2]]
   \<and> fl_sum ([[Fin 1, Fin 0], [Fin 0, Fin 1]] ! 0) = Fin 1
   \<and> fl_sum ([[Fin 1, Fin 0], [Fin 0, Fin 1]] ! 1) = Fin 1
   \<and> [[Fin 1, Fin 0], [Fin 0, Fin 1]] ! 1 ! 1
       = fl_div ([[Fin 1, Fin 0], [Fin 0, Fin 2]] ! 1 ! 1) (fl_sum ([[Fin 1, Fin 0], [Fin 0, Fin 2]] ! 1))"
proof -
  have p: "produce_and_print_confusion_matrix 2 [([0, 1], [0, 1]), ([1], [1])] (\<lambda>x. x)
     = Inr [[Fin 1, Fin 0], [Fin 0, Fin 1]]"
    by (simp add: produce_and_print_confusion_matrix_def confusion_counts_def cm_batch_def
      cm_increment_def py_index_def zeros_def normalize_rows_def normalize_row_def ebind_def
      numeral_2_eq_2 upt_rec fl_sum_def)
  have c: "\<forall>c<2. int c \<in> fst ` set (cm_samples [([0, 1], [0, 1]), ([1], [1])] (\<lambda>x. x))"
    by (simp add: cm_samples_def less_2_cases_iff)
  have k: "confusion_counts 2 [([0, 1], [0, 1]), ([1], [1])] (\<lambda>x. x)
     = Inr [[Fin 1, Fin 0], [Fin 0, Fin 2]]"
    by (simp add: confusion_counts_def cm_batch_def cm_increment_def py_index_def zeros_def
      numeral_2_eq_2)
  from confusion_matrix_rows_sum_to_one [OF p c] k have
    A: "\<forall>i<2. fl_sum ([[Fin 1, Fin 0], [Fin 0, Fin 1]] ! i) = Fin 1"
    and B: "\<forall>i<2. \<forall>j<2. [[Fin 1, Fin 0], [Fin 0, Fin 1]] ! i ! j
       = fl_div ([[Fin 1, Fin 0], [Fin 0, Fin 2]] ! i ! j) (fl_sum ([[Fin 1, Fin 0], [Fin 0, Fin 2]] ! i))"
    by auto
  have "fl_sum ([[Fin 1, Fin 0], [Fin 0, Fin 1]] ! 0) = Fin 1"
    using A [rule_format, of 0] by simp
  moreover have "fl_sum ([[Fin 1, Fin 0], [Fin 0, Fin 1]] ! 1) = Fin 1"
    using A [rule_format, of 1] by simp
  moreover have "[[Fin 1, Fin 0], [Fin 0, Fin 1]] ! 1 ! 1
       = fl_div ([[Fin 1, Fin 0], [Fin 0, Fin 2]] ! 1 ! 1) (fl_sum ([[Fin 1, Fin 0], [Fin 0, Fin 2]] ! 1))"
    using B [rule_format, of 1 1] by simp
  moreover have "int 0 \<in> fst ` set (cm_samples [([0, 1], [0, 1]), ([1], [1])] (\<lambda>x. x))"
    and "int 1 \<in> fst ` set (cm_samples [([0, 1], [0, 1]), ([1], [1])] (\<lambda>x. x))"
    by (simp_all add: cm_samples_def)
  ultimately show ?thesis using p k by simp
qed


section \<open>Properties of loading a checkpoint\<close>

lemma copy_params_Cons:
  "copy_params sd (e # es) h =
     copy_params sd es (case map_of sd (fst e) of None \<Rightarrow> h | Some src \<Rightarrow> h[snd e := h ! src])"
  by (simp add: copy_params_def)

lemma copy_params_frame:
  "length (copy_params sd es h) = length h \<and>
   (\<forall>a. a \<notin> snd ` set es \<longrightarrow> copy_params sd es h ! a = h ! a)"
proof (induction es arbitrary: h)
  case Nil
  then show ?case by (simp add: copy_params_def)
next
  case (Cons e es)
  show ?case
    unfolding copy_params_Cons using Cons.IH
    by (auto split: option.splits)
qed

lemma copy_params_loaded:
  assumes "distinct (map snd es)" and "\<forall>e \<in> set es. snd e < length h"
    and "\<forall>e \<in> set es. \<forall>src. map_of sd (fst e) = Some src \<longrightarrow> src \<notin> snd ` set es"
    and "e \<in> set es" and "map_of sd (fst e) = Some src"
  shows "copy_params sd es h ! snd e = h ! src"
  using assms
proof (induction es arbitrary: h)
  case Nil
  then show ?case by simp
next
  case (Cons x es)
  let ?h1 = "case map_of sd (fst x) of None \<Rightarrow> h | Some s \<Rightarrow> h[snd x := h ! s]"
  have len1: "length ?h1 = length h" by (simp split: option.splits)
  have src_nx: "src \<noteq> snd x" using Cons.prems(3,4,5) by auto
  have h1src: "?h1 ! src = h ! src" using src_nx by (simp split: option.splits)
  show ?case
  proof (cases "e = x")
    case True
    have "snd x \<notin> snd ` set es" using Cons.prems(1) by auto
    then have "copy_params sd es ?h1 ! snd x = ?h1 ! snd x"
      using copy_params_frame [of sd es ?h1] by blast
    moreover have "?h1 ! snd x = h ! src"
      using True Cons.prems(2,5) by simp
    ultimately show ?thesis using True by (simp add: copy_params_Cons)
  next
    case False
    then have e: "e \<in> set es" using Cons.prems(4) by simp
    have "copy_params sd es ?h1 ! snd e = ?h1 ! src"
    proof (rule Cons.IH)
      show "distinct (map snd es)" using Cons.prems(1) by simp
      show "\<forall>e\<in>set es. snd e < length ?h1" using Cons.prems(2) len1 by simp
      show "\<forall>e\<in>set es. \<forall>src. map_of sd (fst e) = Some src \<longrightarrow> src \<notin> snd ` set es"
        using Cons.prems(3) by auto
      show "e \<in> set es" by (rule e)
      show "map_of sd (fst e) = Some src" by (rule Cons.prems(5))
    qed
    then show ?thesis using h1src by (simp add: copy_params_Cons)
  qed
qed

lemma map_of_filter_other:
  "k \<noteq> k' \<Longrightarrow> map_of (filter (\<lambda>f. fst f \<noteq> k') c) k = map_of c k"
  by (induction c) auto

lemma load_state_dict_copy:
  "load_state_dict model sd h = Inr h' \<Longrightarrow> h' = copy_params sd model h"
  by (auto simp: load_state_dict_def split: if_splits)

text \<open>
  C10. When \<open>load_checkpoint\<close> is called without an optimizer and returns, the store has
  changed at the addresses of the model's parameters only, so the state tensors of every
  optimizer (which are none of the model's parameters) keep their values; the model's
  parameters hold the values of the tensors of the same names in the checkpoint's field
  "state_dict" (for a checkpoint that shares no tensor with the model); and the field
  "optimizer" is not read: the call gives the same result on the checkpoint without it.
\<close>

theorem load_checkpoint_without_optimizer:
  assumes "load_checkpoint ld model ckpt None h = Inr (h', opt')"
  shows "opt' = None \<and> length h' = length h
    \<and> (\<forall>a. a \<notin> snd ` set model \<longrightarrow> h' ! a = h ! a)
    \<and> (\<forall>optimizer. snd ` set optimizer \<inter> snd ` set model = {}
          \<longrightarrow> tensor_values h' optimizer = tensor_values h optimizer)
    \<and> (\<exists>sd. map_of ckpt ''state_dict'' = Some sd
          \<and> set (map fst sd) = set (map fst model)
          \<and> (distinct (map snd model) \<and> (\<forall>e \<in> set model. snd e < length h)
               \<and> snd ` set sd \<inter> snd ` set model = {}
              \<longrightarrow> (\<forall>e \<in> set model. \<exists>src. map_of sd (fst e) = Some src \<and> h' ! snd e = h ! src)))
    \<and> load_checkpoint ld model (filter (\<lambda>f. fst f \<noteq> ''optimizer'') ckpt) None h
        = Inr (h', None)"
proof -
  from assms obtain sd where sd: "map_of ckpt ''state_dict'' = Some sd"
    and l: "load_state_dict model sd h = Inr h'" and o: "opt' = None"
    by (auto simp: load_checkpoint_def ebind_def split: option.splits sum.splits)
  have h': "h' = copy_params sd model h" using l by (rule load_state_dict_copy)
  have keys: "set (map fst sd) = set (map fst model)"
    using l by (auto simp: load_state_dict_def split: if_splits)
  have frame: "length h' = length h \<and> (\<forall>a. a \<notin> snd ` set model \<longrightarrow> h' ! a = h ! a)"
    unfolding h' by (rule copy_params_frame)
  have opt: "tensor_values h' optimizer = tensor_values h optimizer"
    if "snd ` set optimizer \<inter> snd ` set model = {}" for optimizer
  proof -
    have "h' ! snd e = h ! snd e" if "e \<in> set optimizer" for e
    proof -
      have "snd e \<in> snd ` set optimizer" using that by simp
      with \<open>snd ` set optimizer \<inter> snd ` set model = {}\<close> have "snd e \<notin> snd ` set model"
        by blast
      with frame show ?thesis by blast
    qed
    then show ?thesis by (simp add: tensor_values_def)
  qed
  have loaded: "\<exists>src. map_of sd (fst e) = Some src \<and> h' ! snd e = h ! src"
    if d: "distinct (map snd model)" and a: "\<forall>e \<in> set model. snd e < length h"
      and dis: "snd ` set sd \<inter> snd ` set model = {}" and e: "e \<in> set model" for e
  proof -
    have "fst e \<in> fst ` set sd" using e keys by auto
    then have "map_of sd (fst e) \<noteq> None" by (simp add: map_of_eq_None_iff)
    then obtain src where src: "map_of sd (fst e) = Some src" by blast
    have "\<forall>e \<in> set model. \<forall>src. map_of sd (fst e) = Some src \<longrightarrow> src \<notin> snd ` set model"
    proof (intro ballI allI impI)
      fix e' s' assume "e' \<in> set model" and m: "map_of sd (fst e') = Some s'"
      from m have "(fst e', s') \<in> set sd" by (rule map_of_SomeD)
      then have "s' \<in> snd ` set sd" by force
      with dis show "s' \<notin> snd ` set model" by blast
    qed
    from copy_params_loaded [OF d a this e src] src show ?thesis by (auto simp: h')
  qed
  have indep: "load_checkpoint ld model (filter (\<lambda>f. fst f \<noteq> ''optimizer'') ckpt) None h
        = Inr (h', None)"
    using sd l by (simp add: load_checkpoint_def map_of_filter_other ebind_def)
  have part5: "\<exists>sd. map_of ckpt ''state_dict'' = Some sd
          \<and> set (map fst sd) = set (map fst model)
          \<and> (distinct (map snd model) \<and> (\<forall>e \<in> set model. snd e < length h)
               \<and> snd ` set sd \<inter> snd ` set model = {}
              \<longrightarrow> (\<forall>e \<in> set model. \<exists>src. map_of sd (fst e) = Some src \<and> h' ! snd e = h ! src))"
    using sd keys loaded by (intro exI [of _ sd] conjI impI ballI) blast+
  have part4: "\<forall>optimizer. snd ` set optimizer \<inter> snd ` set model = {}
          \<longrightarrow> tensor_values h' optimizer = tensor_values h optimizer"
    using opt by blast
  from frame have f1: "length h' = length h"
    and f2: "\<forall>a. a \<notin> snd ` set model \<longrightarrow> h' ! a = h ! a" by simp_all
  show ?thesis by (intro conjI) (rule o f1 f2 part4 part5 indep)+
qed

theorem load_checkpoint_without_optimizer_witness:
  "load_checkpoint (\<lambda>opt sd h. Inr (sd, h)) [(''w'', 0), (''b'', 1)]
      [(''state_dict'', [(''w'', 2), (''b'', 3)])] None
      [10, 20, 30, 40, 50 :: nat] = Inr ([30, 40, 30, 40, 50], None)
   \<and> tensor_values [30, 40, 30, 40, 50 :: nat] [(''exp_avg'', 4)]
       = tensor_values [10, 20, 30, 40, 50] [(''exp_avg'', 4)]
   \<and> load_checkpoint (\<lambda>opt sd h. Inr (sd, h)) [(''w'', 0), (''b'', 1)]
        (filter (\<lambda>f. fst f \<noteq> ''optimizer'') [(''state_dict'', [(''w'', 2), (''b'', 3)])]) None
        [10, 20, 30, 40, 50 :: nat] = Inr ([30, 40, 30, 40, 50], None)"
proof -
  have run: "load_checkpoint (\<lambda>opt sd h. Inr (sd, h)) [(''w'', 0), (''b'', 1)]
      [(''state_dict'', [(''w'', 2), (''b'', 3)])]
      None [10, 20, 30, 40, 50 :: nat] = Inr ([30, 40, 30, 40, 50], None)"
    by (simp add: load_checkpoint_def load_state_dict_def copy_params_def ebind_def)
  have dis: "snd ` set [(''exp_avg'', 4::nat)] \<inter> snd ` set [(''w'', 0), (''b'', 1)] = {}"
    by simp
  from load_checkpoint_without_optimizer [OF run] dis show ?thesis
    using run by blast
qed

section \<open>Properties of the training and validation loop\<close>

lemma efold_snoc: "efold f (xs @ [x]) s = ebind (efold f xs s) (f x)"
  by (simp add: efold_append) (simp add: ebind_def split: sum.splits)

lemma efold_invariant:
  assumes "efold f xs s = Inr s'" and "P s"
    and "\<And>x t t'. x \<in> set xs \<Longrightarrow> P t \<Longrightarrow> f x t = Inr t' \<Longrightarrow> P t'"
  shows "P s'"
  using assms
proof (induction xs arbitrary: s)
  case Nil
  then show ?case by simp
next
  case (Cons x xs)
  from Cons.prems(1) obtain t where t: "f x s = Inr t" and r: "efold f xs t = Inr s'"
    by (auto split: sum.splits)
  have "P t" using Cons.prems(2) t Cons.prems(3) [of x s t] by simp
  with r show ?case using Cons.IH [of t] Cons.prems(3) by auto
qed

lemma print__batch_info_Inr:
  "print__batch_info mode i L e loss f = Inr l \<Longrightarrow> f \<noteq> 0 \<and> (i mod f = 0 \<longrightarrow> dataset_len L \<noteq> 0)"
  by (auto simp: print__batch_info_def Let_def split: if_splits)

lemma foldl_update_frame:
  "length (foldl (\<lambda>h' av. h'[fst av := snd av]) h avs) = length h \<and>
   (\<forall>a. a \<notin> fst ` set avs \<longrightarrow> foldl (\<lambda>h' av. h'[fst av := snd av]) h avs ! a = h ! a)"
  by (induction avs arbitrary: h) auto

lemma write_all_length: "length (write_all as vs h) = length h"
  unfolding write_all_def using foldl_update_frame by blast

lemma write_all_other:
  assumes "a \<notin> set as"
  shows "write_all as vs h ! a = h ! a"
proof -
  have "a \<notin> fst ` set (zip as vs)" using assms by (auto dest: set_zip_leftD)
  then show ?thesis unfolding write_all_def using foldl_update_frame by blast
qed

lemma apply_step_length: "length (fst (apply_step env M O' amp b h g)) = length h"
  by (simp add: apply_step_def Let_def write_all_length)

lemma apply_step_other:
  assumes "a \<notin> snd ` set M \<union> snd ` set O'"
  shows "fst (apply_step env M O' amp b h g) ! a = h ! a"
  using assms by (simp add: apply_step_def Let_def write_all_other)

lemma train_batch_fields:
  assumes "train_batch env M O' amp TL f e ib s = Inr s'"
  shows "heap s' = fst (apply_step env M O' amp (snd ib) (heap s) (scaler s))"
    and "scaler s' = snd (apply_step env M O' amp (snd ib) (heap s) (scaler s))"
    and "trainingLoss_perEpoch s' =
           trainingLoss_perEpoch s @ [cce_sum env True amp (tensor_values (heap s) M) (snd ib)]"
    and "num_samples s' = num_samples s + batch_len env (snd ib)"
    and "min_val_loss s' = min_val_loss s" and "checkpoint s' = checkpoint s"
    and "train_losses s' = train_losses s" and "val_losses s' = val_losses s"
    and "train_accs s' = train_accs s" and "val_accs s' = val_accs s"
    and "valLoss_perEpoch s' = valLoss_perEpoch s"
    and "val_num_samples s' = val_num_samples s" and "val_num_correct s' = val_num_correct s"
    and "f \<noteq> 0" and "int (fst ib) mod f = 0 \<longrightarrow> dataset_len TL \<noteq> 0"
  using assms
  by (auto simp: train_batch_def Let_def ebind_def emit_def split: sum.splits
           dest: print__batch_info_Inr)

lemma val_batch_fields:
  assumes "val_batch env M amp VL f e ib s = Inr s'"
  shows "heap s' = heap s" and "scaler s' = scaler s"
    and "valLoss_perEpoch s' =
           valLoss_perEpoch s @ [cce_sum env False amp (tensor_values (heap s) M) (snd ib)]"
    and "val_num_samples s' = val_num_samples s + batch_len env (snd ib)"
    and "min_val_loss s' = min_val_loss s" and "checkpoint s' = checkpoint s"
    and "train_losses s' = train_losses s" and "val_losses s' = val_losses s"
    and "train_accs s' = train_accs s" and "val_accs s' = val_accs s"
    and "trainingLoss_perEpoch s' = trainingLoss_perEpoch s"
    and "num_samples s' = num_samples s" and "num_correct s' = num_correct s"
    and "f \<noteq> 0" and "int (fst ib) mod f = 0 \<longrightarrow> dataset_len VL \<noteq> 0"
  using assms
  by (auto simp: val_batch_def Let_def ebind_def emit_def split: sum.splits
           dest: print__batch_info_Inr)

lemma same_outer_refl: "same_outer s s"
  by (simp add: same_outer_def)

lemma same_outer_trans: "same_outer s t \<Longrightarrow> same_outer t u \<Longrightarrow> same_outer s u"
  by (simp add: same_outer_def)

lemma heap_frame_refl: "heap_frame live h h"
  by (simp add: heap_frame_def)

lemma heap_frame_trans: "heap_frame live h h1 \<Longrightarrow> heap_frame live h1 h2 \<Longrightarrow> heap_frame live h h2"
  by (auto simp: heap_frame_def)

lemma train_batch_same_outer:
  "train_batch env M O' amp TL f e ib s = Inr s' \<Longrightarrow> same_outer s s'"
  by (simp add: same_outer_def train_batch_fields)

lemma val_batch_same_outer:
  "val_batch env M amp VL f e ib s = Inr s' \<Longrightarrow> same_outer s s'"
  by (simp add: same_outer_def val_batch_fields)

lemma train_batch_heap_frame:
  "train_batch env M O' amp TL f e ib s = Inr s'
   \<Longrightarrow> heap_frame (snd ` set M \<union> snd ` set O') (heap s) (heap s')"
  by (simp add: heap_frame_def train_batch_fields(1) apply_step_length apply_step_other)

lemma train_fold_unchanged:
  assumes "efold (train_batch env M O' amp TL f e) ibs s = Inr s'"
  shows "same_outer s s' \<and> heap_frame (snd ` set M \<union> snd ` set O') (heap s) (heap s')
         \<and> valLoss_perEpoch s' = valLoss_perEpoch s
         \<and> val_num_samples s' = val_num_samples s \<and> val_num_correct s' = val_num_correct s"
proof (rule efold_invariant [OF assms])
  show "same_outer s s \<and> heap_frame (snd ` set M \<union> snd ` set O') (heap s) (heap s)
         \<and> valLoss_perEpoch s = valLoss_perEpoch s
         \<and> val_num_samples s = val_num_samples s \<and> val_num_correct s = val_num_correct s"
    by (simp add: same_outer_refl heap_frame_refl)
next
  fix x t t'
  assume t: "same_outer s t \<and> heap_frame (snd ` set M \<union> snd ` set O') (heap s) (heap t)
         \<and> valLoss_perEpoch t = valLoss_perEpoch s
         \<and> val_num_samples t = val_num_samples s \<and> val_num_correct t = val_num_correct s"
    and step: "train_batch env M O' amp TL f e x t = Inr t'"
  from step have "same_outer t t'" by (rule train_batch_same_outer)
  moreover from step have "heap_frame (snd ` set M \<union> snd ` set O') (heap t) (heap t')"
    by (rule train_batch_heap_frame)
  ultimately show "same_outer s t' \<and> heap_frame (snd ` set M \<union> snd ` set O') (heap s) (heap t')
         \<and> valLoss_perEpoch t' = valLoss_perEpoch s
         \<and> val_num_samples t' = val_num_samples s \<and> val_num_correct t' = val_num_correct s"
    using t train_batch_fields(11,12,13) [OF step]
    by (auto intro: same_outer_trans heap_frame_trans)
qed

lemma val_fold_unchanged:
  assumes "efold (val_batch env M amp VL f e) ibs s = Inr s'"
  shows "same_outer s s' \<and> heap s' = heap s \<and> scaler s' = scaler s
         \<and> trainingLoss_perEpoch s' = trainingLoss_perEpoch s
         \<and> num_samples s' = num_samples s \<and> num_correct s' = num_correct s"
proof (rule efold_invariant [OF assms])
  show "same_outer s s \<and> heap s = heap s \<and> scaler s = scaler s
         \<and> trainingLoss_perEpoch s = trainingLoss_perEpoch s
         \<and> num_samples s = num_samples s \<and> num_correct s = num_correct s"
    by (simp add: same_outer_refl)
next
  fix x t t'
  assume t: "same_outer s t \<and> heap t = heap s \<and> scaler t = scaler s
         \<and> trainingLoss_perEpoch t = trainingLoss_perEpoch s
         \<and> num_samples t = num_samples s \<and> num_correct t = num_correct s"
    and step: "val_batch env M amp VL f e x t = Inr t'"
  from step have "same_outer t t'" by (rule val_batch_same_outer)
  then show "same_outer s t' \<and> heap t' = heap s \<and> scaler t' = scaler s
         \<and> trainingLoss_perEpoch t' = trainingLoss_perEpoch s
         \<and> num_samples t' = num_samples s \<and> num_correct t' = num_correct s"
    using t val_batch_fields(1,2,11,12,13) [OF step]
    by (auto intro: same_outer_trans)
qed

lemma train_fold_losses:
  "efold (train_batch env M O' amp TL f e) (enumerate k bs) s = Inr s'
   \<Longrightarrow> trainingLoss_perEpoch s' =
         trainingLoss_perEpoch s @ batch_sum_losses env M O' amp bs (heap s) (scaler s)
       \<and> num_samples s' = num_samples s + sum_list (map (batch_len env) bs)"
proof (induction bs arbitrary: k s)
  case Nil
  then show ?case by simp
next
  case (Cons b bs)
  from Cons.prems obtain t where t: "train_batch env M O' amp TL f e (k, b) s = Inr t"
    and r: "efold (train_batch env M O' amp TL f e) (enumerate (Suc k) bs) t = Inr s'"
    by (auto split: sum.splits)
  from Cons.IH [OF r] train_batch_fields(1,2,3,4) [OF t]
  show ?case by simp
qed

lemma val_fold_losses:
  "efold (val_batch env M amp VL f e) (enumerate k bs) s = Inr s'
   \<Longrightarrow> valLoss_perEpoch s' =
         valLoss_perEpoch s @ map (cce_sum env False amp (tensor_values (heap s) M)) bs
       \<and> val_num_samples s' = val_num_samples s + sum_list (map (batch_len env) bs)"
proof (induction bs arbitrary: k s)
  case Nil
  then show ?case by simp
next
  case (Cons b bs)
  from Cons.prems obtain t where t: "val_batch env M amp VL f e (k, b) s = Inr t"
    and r: "efold (val_batch env M amp VL f e) (enumerate (Suc k) bs) t = Inr s'"
    by (auto split: sum.splits)
  from Cons.IH [OF r] val_batch_fields(1,3,4) [OF t]
  show ?case by simp
qed

lemma train_pass_dataset:
  assumes "train_pass env M O' amp TL f e s = Inr s'" and "num_samples s = 0"
    and "num_samples s' \<noteq> 0"
  shows "dataset_len TL \<noteq> 0 \<and> f \<noteq> 0"
proof (cases "batches TL e")
  case Nil
  with assms show ?thesis by (simp add: train_pass_def)
next
  case (Cons b bs)
  with assms(1) obtain t where "train_batch env M O' amp TL f e (0, b) s = Inr t"
    by (auto simp: train_pass_def split: sum.splits)
  from train_batch_fields(14,15) [OF this] show ?thesis by simp
qed

lemma val_pass_dataset:
  assumes "val_pass env M amp VL f e s = Inr s'" and "val_num_samples s = 0"
    and "val_num_samples s' \<noteq> 0"
  shows "dataset_len VL \<noteq> 0 \<and> f \<noteq> 0"
proof (cases "batches VL e")
  case Nil
  with assms show ?thesis by (simp add: val_pass_def)
next
  case (Cons b bs)
  with assms(1) obtain t where "val_batch env M amp VL f e (0, b) s = Inr t"
    by (auto simp: val_pass_def split: sum.splits)
  from val_batch_fields(14,15) [OF this] show ?thesis by simp
qed

lemma np_mean_over_map_Fin:
  "n \<noteq> 0 \<Longrightarrow> np_mean_over (map Fin xs) n = Fin (sum_list xs / real n)"
  by (simp add: np_mean_over_def fl_sum_Fin)


lemma epoch_end_Inr:
  assumes "epoch_end M O' TL VL e s = Inr s'" and "length (val_losses s) = e"
  shows "train_losses s' = train_losses s @ [np_mean_over (trainingLoss_perEpoch s) (dataset_len TL)]"
    and "val_losses s' = val_losses s @ [np_mean_over (valLoss_perEpoch s) (dataset_len VL)]"
    and "train_accs s' = train_accs s @ [real (num_correct s) / real (num_samples s)]"
    and "val_accs s' = val_accs s @ [real (val_num_correct s) / real (val_num_samples s)]"
    and "num_samples s \<noteq> 0" and "val_num_samples s \<noteq> 0"
    and "fl_lt (np_mean_over (valLoss_perEpoch s) (dataset_len VL)) (min_val_loss s)
         \<Longrightarrow> min_val_loss s' = np_mean_over (valLoss_perEpoch s) (dataset_len VL)
           \<and> checkpoint s' = Some (captured_checkpoint M O' (heap s))
           \<and> heap s' = captured_heap M O' (heap s)"
    and "\<not> fl_lt (np_mean_over (valLoss_perEpoch s) (dataset_len VL)) (min_val_loss s)
         \<Longrightarrow> min_val_loss s' = min_val_loss s \<and> checkpoint s' = checkpoint s
           \<and> heap s' = heap s"
  using assms
  by (auto simp: epoch_end_def nth_opt_def Let_def capture_def captured_checkpoint_def
        captured_heap_def split: if_splits)


lemma reset_epoch_fields:
  "heap (reset_epoch s) = heap s" "scaler (reset_epoch s) = scaler s"
  "num_samples (reset_epoch s) = 0" "val_num_samples (reset_epoch s) = 0"
  "trainingLoss_perEpoch (reset_epoch s) = []" "valLoss_perEpoch (reset_epoch s) = []"
  "same_outer s (reset_epoch s)"
  by (simp_all add: reset_epoch_def same_outer_def)

lemma epoch_body_summary:
  assumes body: "epoch_body env M O' amp TL VL ft fv e s = Inr s'"
    and len: "length (val_losses s) = e"
  shows "\<exists>s1 s2. epoch_summary env M O' amp TL VL ft fv e s s' s1 s2"
proof -
  from body obtain s1 s2
    where tp: "train_pass env M O' amp TL ft e (reset_epoch s) = Inr s1"
      and vp: "val_pass env M amp VL fv e s1 = Inr s2"
      and ee: "epoch_end M O' TL VL e s2 = Inr s'"
    by (auto simp: epoch_body_def ebind_def split: sum.splits)
  note tu = train_fold_unchanged [OF tp [unfolded train_pass_def]]
  note vu = val_fold_unchanged [OF vp [unfolded val_pass_def]]
  note tl = train_fold_losses [OF tp [unfolded train_pass_def]]
  note vl = val_fold_losses [OF vp [unfolded val_pass_def]]
  have o1: "same_outer s s1"
    using tu reset_epoch_fields(7) [of s] by (blast intro: same_outer_trans)
  have o2: "same_outer s s2" using o1 vu by (blast intro: same_outer_trans)
  have len2: "length (val_losses s2) = e" using o2 len by (simp add: same_outer_def)
  note E = epoch_end_Inr [OF ee len2]
  have ns2: "num_samples s2 = num_samples s1" using vu by simp
  have vns1: "val_num_samples s1 = 0" using tu by (simp add: reset_epoch_fields)
  have dT: "dataset_len TL \<noteq> 0 \<and> ft \<noteq> 0"
    using train_pass_dataset [OF tp] E(5) ns2 by (simp add: reset_epoch_fields)
  have dV: "dataset_len VL \<noteq> 0 \<and> fv \<noteq> 0"
    using val_pass_dataset [OF vp vns1] E(6) by simp
  have tls: "trainingLoss_perEpoch s2 = batch_sum_losses env M O' amp (batches TL e) (heap s) (scaler s)"
    using tl vu by (simp add: reset_epoch_fields)
  have vls: "valLoss_perEpoch s2 = map (cce_sum env False amp (tensor_values (heap s1) M)) (batches VL e)"
    using vl tu by (simp add: reset_epoch_fields)
  have hf: "heap_frame (snd ` set M \<union> snd ` set O') (heap s) (heap s1)"
    using tu by (simp add: reset_epoch_fields)
  have h2: "heap s2 = heap s1" using vu by simp
  have outer: "train_losses s2 = train_losses s" "val_losses s2 = val_losses s"
    "train_accs s2 = train_accs s" "val_accs s2 = val_accs s" "min_val_loss s2 = min_val_loss s"
    "checkpoint s2 = checkpoint s"
    using o2 by (simp_all add: same_outer_def)
  have sel1: "fl_lt (np_mean_over (valLoss_perEpoch s2) (dataset_len VL)) (min_val_loss s)
        \<longrightarrow> min_val_loss s' = np_mean_over (valLoss_perEpoch s2) (dataset_len VL)
           \<and> checkpoint s' = Some (captured_checkpoint M O' (heap s1))
           \<and> heap s' = captured_heap M O' (heap s1)"
    using E(7) unfolding outer h2 by simp
  have sel2: "\<not> fl_lt (np_mean_over (valLoss_perEpoch s2) (dataset_len VL)) (min_val_loss s)
        \<longrightarrow> min_val_loss s' = min_val_loss s \<and> checkpoint s' = checkpoint s
           \<and> heap s' = heap s1"
    using E(8) unfolding outer h2 by simp
  have a1: "train_losses s' =
        train_losses s @ [np_mean_over (trainingLoss_perEpoch s2) (dataset_len TL)]"
    using E(1) unfolding outer .
  have a2: "val_losses s' =
        val_losses s @ [np_mean_over (valLoss_perEpoch s2) (dataset_len VL)]"
    using E(2) unfolding outer .
  have a3: "train_accs s' = train_accs s @ [real (num_correct s2) / real (num_samples s2)]"
    using E(3) unfolding outer .
  have a4: "val_accs s' = val_accs s @ [real (val_num_correct s2) / real (val_num_samples s2)]"
    using E(4) unfolding outer .
  have "epoch_summary env M O' amp TL VL ft fv e s s' s1 s2"
    unfolding epoch_summary_def
    using tp vp dT dV tls vls a1 a2 a3 a4 hf sel1 sel2
    by (intro conjI) simp_all
  then show ?thesis by blast
qed

lemma epoch_summary_appends:
  assumes "epoch_summary env M O' amp TL VL ft fv e s s' s1 s2"
  shows "\<exists>x y. train_losses s' = train_losses s @ [x] \<and> val_losses s' = val_losses s @ [y]"
    and "\<exists>x y. train_accs s' = train_accs s @ [x] \<and> val_accs s' = val_accs s @ [y]"
  using assms by (simp_all add: epoch_summary_def)

lemma epoch_summary_heap:
  assumes "epoch_summary env M O' amp TL VL ft fv e s s' s1 s2"
  shows "heap_frame (snd ` set M \<union> snd ` set O') (heap s) (heap s1)"
    and "heap s' = captured_heap M O' (heap s1) \<or> heap s' = heap s1"
  using assms unfolding epoch_summary_def by blast+

lemma captured_heap_length:
  "length (captured_heap M O' h) = length h + length M + length O'"
  by (simp add: captured_heap_def deepcopy_def)

lemma captured_heap_old: "a < length h \<Longrightarrow> captured_heap M O' h ! a = h ! a"
  by (simp add: captured_heap_def deepcopy_def nth_append)

lemma captured_heap_frame: "heap_frame live h (captured_heap M O' h)"
  by (simp add: heap_frame_def captured_heap_length captured_heap_old)

lemma epoch_body_heap_frame:
  assumes "epoch_body env M O' amp TL VL ft fv e s = Inr s'" and "length (val_losses s) = e"
  shows "heap_frame (snd ` set M \<union> snd ` set O') (heap s) (heap s')"
proof -
  from epoch_body_summary [OF assms] obtain s1 s2
    where S: "epoch_summary env M O' amp TL VL ft fv e s s' s1 s2" by blast
  from epoch_summary_heap [OF S] show ?thesis
    using captured_heap_frame [of "snd ` set M \<union> snd ` set O'" "heap s1" M O']
    by (auto intro: heap_frame_trans)
qed

lemma run_epochs_0: "run_epochs env M O' amp TL VL ft fv 0 h = Inr (tv_init env amp h)"
  by (simp add: run_epochs_def)

lemma run_epochs_Suc:
  "run_epochs env M O' amp TL VL ft fv (Suc n) h =
     ebind (run_epochs env M O' amp TL VL ft fv n h) (epoch_body env M O' amp TL VL ft fv n)"
  by (simp add: run_epochs_def efold_snoc)

lemma run_epochs_step:
  assumes "run_epochs env M O' amp TL VL ft fv (Suc n) h = Inr s'"
  shows "\<exists>s. run_epochs env M O' amp TL VL ft fv n h = Inr s
           \<and> epoch_body env M O' amp TL VL ft fv n s = Inr s'"
  using assms by (auto simp: run_epochs_Suc ebind_def split: sum.splits)

lemma run_epochs_lengths:
  "run_epochs env M O' amp TL VL ft fv n h = Inr s
   \<Longrightarrow> length (train_losses s) = n \<and> length (val_losses s) = n
     \<and> length (train_accs s) = n \<and> length (val_accs s) = n"
proof (induction n arbitrary: s)
  case 0
  then show ?case by (auto simp: run_epochs_0 tv_init_def)
next
  case (Suc n)
  from run_epochs_step [OF Suc.prems] obtain t
    where t: "run_epochs env M O' amp TL VL ft fv n h = Inr t"
      and b: "epoch_body env M O' amp TL VL ft fv n t = Inr s" by blast
  note L = Suc.IH [OF t]
  from L have lv: "length (val_losses t) = n" by simp
  from epoch_body_summary [OF b lv] obtain s1 s2
    where S: "epoch_summary env M O' amp TL VL ft fv n t s s1 s2" by blast
  from epoch_summary_appends [OF S] obtain x y x' y'
    where "train_losses s = train_losses t @ [x]" "val_losses s = val_losses t @ [y]"
      "train_accs s = train_accs t @ [x']" "val_accs s = val_accs t @ [y']" by blast
  with L show ?case by simp
qed

lemma run_epochs_take:
  "run_epochs env M O' amp TL VL ft fv n h = Inr sn \<Longrightarrow> k \<le> n
   \<Longrightarrow> \<exists>sk. run_epochs env M O' amp TL VL ft fv k h = Inr sk
          \<and> val_losses sk = take k (val_losses sn)
          \<and> train_losses sk = take k (train_losses sn)
          \<and> train_accs sk = take k (train_accs sn)
          \<and> val_accs sk = take k (val_accs sn)
          \<and> heap_frame (snd ` set M \<union> snd ` set O') (heap sk) (heap sn)"
proof (induction n arbitrary: sn)
  case 0
  then show ?case by (auto simp: heap_frame_refl dest: run_epochs_lengths)
next
  case (Suc n)
  from run_epochs_step [OF Suc.prems(1)] obtain t
    where t: "run_epochs env M O' amp TL VL ft fv n h = Inr t"
      and b: "epoch_body env M O' amp TL VL ft fv n t = Inr sn" by blast
  note L = run_epochs_lengths [OF t]
  show ?case
  proof (cases "k = Suc n")
    case True
    with Suc.prems(1) run_epochs_lengths [OF Suc.prems(1)] show ?thesis
      by (simp add: heap_frame_refl)
  next
    case False
    with Suc.prems(2) have kn: "k \<le> n" by simp
    from Suc.IH [OF t kn] obtain sk
      where sk: "run_epochs env M O' amp TL VL ft fv k h = Inr sk"
        and v: "val_losses sk = take k (val_losses t)"
        and tr: "train_losses sk = take k (train_losses t)"
        and ta: "train_accs sk = take k (train_accs t)"
        and va: "val_accs sk = take k (val_accs t)"
        and hf: "heap_frame (snd ` set M \<union> snd ` set O') (heap sk) (heap t)" by blast
    from L have lv: "length (val_losses t) = n" by simp
    from epoch_body_summary [OF b lv] obtain s1 s2
      where S: "epoch_summary env M O' amp TL VL ft fv n t sn s1 s2" by blast
    from epoch_summary_appends(1) [OF S] obtain x y
      where ap: "train_losses sn = train_losses t @ [x]" "val_losses sn = val_losses t @ [y]"
      by blast
    from epoch_summary_appends(2) [OF S] obtain x' y'
      where ap2: "train_accs sn = train_accs t @ [x']" "val_accs sn = val_accs t @ [y']"
      by blast
    have hf2: "heap_frame (snd ` set M \<union> snd ` set O') (heap t) (heap sn)"
      using epoch_body_heap_frame [OF b lv] .
    have "heap_frame (snd ` set M \<union> snd ` set O') (heap sk) (heap sn)"
      using hf hf2 by (rule heap_frame_trans)
    with sk v tr ta va ap ap2 L kn show ?thesis by simp
  qed
qed

lemma fl_lt_le_trans: "fl_lt a b \<Longrightarrow> fl_le b c \<Longrightarrow> fl_lt a c"
  by (cases a; cases b; cases c) (auto simp: fl_le_def)

lemma fl_le_refl: "x \<noteq> NaN \<Longrightarrow> fl_le x x"
  by (simp add: fl_le_def)

lemma fl_lt_imp_le: "fl_lt a b \<Longrightarrow> fl_le a b"
  by (simp add: fl_le_def)

lemma fl_lt_not_NaN: "fl_lt a b \<Longrightarrow> a \<noteq> NaN \<and> b \<noteq> NaN"
  by (cases a; cases b) auto

lemma fl_lt_PInf: "fl_lt a b \<Longrightarrow> fl_lt a PInf"
  by (cases a; cases b) auto

lemma fl_not_lt_PInf: "x \<noteq> NaN \<Longrightarrow> \<not> fl_lt x PInf \<Longrightarrow> x = PInf"
  by (cases x) auto

lemma fl_not_lt_le: "\<not> fl_lt a b \<Longrightarrow> a \<noteq> NaN \<Longrightarrow> b \<noteq> NaN \<Longrightarrow> fl_le b a"
  by (cases a; cases b) (auto simp: fl_le_def)


lemma best_invariant:
  assumes "run_epochs env M O' amp TL VL ft fv n h = Inr s"
  shows "(checkpoint s = None \<and> min_val_loss s = PInf
            \<and> (\<forall>j<n. \<not> fl_lt (val_losses s ! j) PInf)) \<or>
         (\<exists>k c. checkpoint s = Some c \<and> captured_at env M O' amp TL VL ft fv h k c
                \<and> is_best (val_losses s) k \<and> min_val_loss s = val_losses s ! k)"
  using assms
proof (induction n arbitrary: s)
  case 0
  then show ?case by (auto simp: run_epochs_0 tv_init_def)
next
  case (Suc n)
  from run_epochs_step [OF Suc.prems] obtain t
    where t: "run_epochs env M O' amp TL VL ft fv n h = Inr t"
      and b: "epoch_body env M O' amp TL VL ft fv n t = Inr s" by blast
  from run_epochs_lengths [OF t] have lv: "length (val_losses t) = n" by simp
  from epoch_body_summary [OF b lv] obtain s1 s2
    where S: "epoch_summary env M O' amp TL VL ft fv n t s s1 s2" by blast
  define y where "y = np_mean_over (valLoss_perEpoch s2) (dataset_len VL)"
  have ap: "val_losses s = val_losses t @ [y]"
    using S by (simp add: epoch_summary_def y_def)
  have tp: "train_pass env M O' amp TL ft n (reset_epoch t) = Inr s1"
    using S by (simp add: epoch_summary_def)
  have nth_n: "val_losses s ! n = y" using ap lv by (simp add: nth_append)
  have nth_old: "val_losses s ! j = val_losses t ! j" if "j < n" for j
    using ap lv that by (simp add: nth_append)
  have len_s: "length (val_losses s) = Suc n" using ap lv by simp
  note IH = Suc.IH [OF t]
  show ?case
  proof (cases "fl_lt y (min_val_loss t)")
    case True
    note lt = True
    with S have m: "min_val_loss s = y"
      and c: "checkpoint s = Some (captured_checkpoint M O' (heap s1))"
      and hp: "heap s = captured_heap M O' (heap s1)"
      by (simp_all add: epoch_summary_def y_def)
    have cap: "captured_at env M O' amp TL VL ft fv h n (captured_checkpoint M O' (heap s1))"
      unfolding captured_at_def
      using t Suc.prems tp lt m c hp nth_n
      by (intro exI [of _ t] exI [of _ s] exI [of _ s1]) simp
    have yP: "fl_lt y PInf" using lt by (rule fl_lt_PInf)
    have yN: "y \<noteq> NaN" using lt by (auto dest: fl_lt_not_NaN)
    have below: "fl_lt y (val_losses t ! j)" if j: "j < n" and nn: "val_losses t ! j \<noteq> NaN" for j
      using IH
    proof
      assume "checkpoint t = None \<and> min_val_loss t = PInf
            \<and> (\<forall>j<n. \<not> fl_lt (val_losses t ! j) PInf)"
      with j have "\<not> fl_lt (val_losses t ! j) PInf" by simp
      with nn have "val_losses t ! j = PInf" by (rule fl_not_lt_PInf)
      with yP show ?thesis by simp
    next
      assume "\<exists>k c. checkpoint t = Some c \<and> captured_at env M O' amp TL VL ft fv h k c
                \<and> is_best (val_losses t) k \<and> min_val_loss t = val_losses t ! k"
      then obtain k0 where b0: "is_best (val_losses t) k0"
        and m0: "min_val_loss t = val_losses t ! k0" by blast
      from b0 j lv nn have "fl_le (val_losses t ! k0) (val_losses t ! j)"
        by (simp add: is_best_def)
      with lt m0 show ?thesis by (auto intro: fl_lt_le_trans)
    qed
    have best: "is_best (val_losses s) n"
      unfolding is_best_def len_s
    proof (intro conjI allI impI)
      show "n < Suc n" by simp
    next
      show "fl_lt (val_losses s ! n) PInf" using yP by (simp add: nth_n)
    next
      fix j assume "j < Suc n" and nn: "val_losses s ! j \<noteq> NaN"
      show "fl_le (val_losses s ! n) (val_losses s ! j)"
      proof (cases "j = n")
        case True
        then show ?thesis using yN by (simp add: nth_n fl_le_refl)
      next
        case False
        with \<open>j < Suc n\<close> have jn: "j < n" by simp
        from nn have "val_losses t ! j \<noteq> NaN" by (simp add: nth_old [OF jn])
        from below [OF jn this] show ?thesis by (simp add: nth_n nth_old [OF jn] fl_lt_imp_le)
      qed
    next
      fix j assume jn: "j < n" and nn: "val_losses s ! j \<noteq> NaN"
      from nn have "val_losses t ! j \<noteq> NaN" by (simp add: nth_old [OF jn])
      from below [OF jn this] show "fl_lt (val_losses s ! n) (val_losses s ! j)"
        by (simp add: nth_n nth_old [OF jn])
    qed
    show ?thesis using c cap best m nth_n by auto
  next
    case False
    note nlt = False
    with S have m: "min_val_loss s = min_val_loss t" and c: "checkpoint s = checkpoint t"
      by (simp_all add: epoch_summary_def y_def)
    from IH show ?thesis
    proof
      assume A: "checkpoint t = None \<and> min_val_loss t = PInf
            \<and> (\<forall>j<n. \<not> fl_lt (val_losses t ! j) PInf)"
      then have old: "\<not> fl_lt (val_losses t ! j) PInf" if "j < n" for j using that by simp
      from A nlt have ny: "\<not> fl_lt y PInf" by simp
      have "\<not> fl_lt (val_losses s ! j) PInf" if js: "j < Suc n" for j
      proof (cases "j = n")
        case True
        then show ?thesis using ny by (simp add: nth_n)
      next
        case False
        with js have jn: "j < n" by simp
        from old [OF jn] show ?thesis by (simp add: nth_old [OF jn])
      qed
      with A m c show ?thesis by simp
    next
      assume "\<exists>k c. checkpoint t = Some c \<and> captured_at env M O' amp TL VL ft fv h k c
                \<and> is_best (val_losses t) k \<and> min_val_loss t = val_losses t ! k"
      then obtain k0 c0 where c0: "checkpoint t = Some c0"
        and cap: "captured_at env M O' amp TL VL ft fv h k0 c0"
        and b0: "is_best (val_losses t) k0"
        and m0: "min_val_loss t = val_losses t ! k0" by blast
      from b0 lv have k0: "k0 < n" and kP: "fl_lt (val_losses t ! k0) PInf"
        by (simp_all add: is_best_def)
      have kN: "val_losses t ! k0 \<noteq> NaN" using kP by (auto dest: fl_lt_not_NaN)
      have best: "is_best (val_losses s) k0"
        unfolding is_best_def len_s
      proof (intro conjI allI impI)
        show "k0 < Suc n" using k0 by simp
      next
        show "fl_lt (val_losses s ! k0) PInf" using kP by (simp add: nth_old [OF k0])
      next
        fix j assume js: "j < Suc n" and nn: "val_losses s ! j \<noteq> NaN"
        show "fl_le (val_losses s ! k0) (val_losses s ! j)"
        proof (cases "j = n")
          case True
          with nn have "y \<noteq> NaN" by (simp add: nth_n)
          with nlt m0 kN have "fl_le (val_losses t ! k0) y" by (simp add: fl_not_lt_le)
          then show ?thesis using True by (simp add: nth_n nth_old [OF k0])
        next
          case False
          with js have jn: "j < n" by simp
          with b0 lv nn show ?thesis
            by (simp add: is_best_def nth_old [OF jn] nth_old [OF k0])
        qed
      next
        fix j assume jk: "j < k0" and nn: "val_losses s ! j \<noteq> NaN"
        with k0 have jn: "j < n" by simp
        from b0 jk nn show "fl_lt (val_losses s ! k0) (val_losses s ! j)"
          by (simp add: is_best_def nth_old [OF jn] nth_old [OF k0])
      qed
      show ?thesis using c c0 cap best m m0 nth_old [OF k0] by auto
    qed
  qed
qed

lemma train_and_validate_Inr:
  assumes "train_and_validate env M O' epochs amp TL VL ft fv h = Inr r"
  shows "\<exists>s. run_epochs env M O' amp TL VL ft fv (nat epochs) h = Inr s
           \<and> checkpoint s = Some (rv_checkpoint r)
           \<and> rv_train_losses r = train_losses s \<and> rv_val_losses r = val_losses s
           \<and> rv_train_accs r = train_accs s \<and> rv_val_accs r = val_accs s
           \<and> rv_heap r = heap s \<and> rv_stdout r = stdout s"
  using assms
  by (auto simp: train_and_validate_def ebind_def split: sum.splits option.splits)

lemma train_and_validate_unbound:
  assumes "run_epochs env M O' amp TL VL ft fv (nat epochs) h = Inr s" and "checkpoint s = None"
  shows "train_and_validate env M O' epochs amp TL VL ft fv h = Inl UnboundLocalError"
  using assms by (simp add: train_and_validate_def ebind_def)









lemma epoch_step_facts:
  assumes s: "run_epochs env M O' amp TL VL ft fv n h = Inr sn" and e: "e < n"
  shows "\<exists>t t' s1 s2. run_epochs env M O' amp TL VL ft fv e h = Inr t
           \<and> run_epochs env M O' amp TL VL ft fv (Suc e) h = Inr t'
           \<and> epoch_summary env M O' amp TL VL ft fv e t t' s1 s2
           \<and> val_losses sn ! e = val_losses t' ! e
           \<and> train_losses sn ! e = train_losses t' ! e
           \<and> length (val_losses t) = e \<and> length (train_losses t) = e"
proof -
  from e have "Suc e \<le> n" by simp
  from run_epochs_take [OF s this] obtain t'
    where t': "run_epochs env M O' amp TL VL ft fv (Suc e) h = Inr t'"
      and v: "val_losses t' = take (Suc e) (val_losses sn)"
      and tr: "train_losses t' = take (Suc e) (train_losses sn)" by blast
  from run_epochs_step [OF t'] obtain t
    where t: "run_epochs env M O' amp TL VL ft fv e h = Inr t"
      and b: "epoch_body env M O' amp TL VL ft fv e t = Inr t'" by blast
  from run_epochs_lengths [OF t] have lv: "length (val_losses t) = e"
    and lt: "length (train_losses t) = e" by simp_all
  from epoch_body_summary [OF b lv] obtain s1 s2
    where S: "epoch_summary env M O' amp TL VL ft fv e t t' s1 s2" by blast
  have "val_losses sn ! e = val_losses t' ! e" "train_losses sn ! e = train_losses t' ! e"
    unfolding v tr by simp_all
  with t t' S lv lt show ?thesis by blast
qed

lemma diverging_run_returns: "diverging_run 0 2 = Inr (projr (diverging_run 0 2))"
  by code_simp

lemma diverging_run_values:
  "rv_val_losses (projr (diverging_run 0 2)) = [Fin (1 / 2), NaN]"
  "rv_checkpoint (projr (diverging_run 0 2))
     = [(''state_dict'', [(''w'', 2)]), (''optimizer'', [(''m'', 3)])]"
  "rv_heap (projr (diverging_run 0 2)) = [2, 4, 1, 2]"
  by code_simp+

lemma diverging_epochs_returns:
  "diverging_epochs 0 1 = Inr (projr (diverging_epochs 0 1))"
  "diverging_epochs 5 2 = Inr (projr (diverging_epochs 5 2))"
  by code_simp+

lemma diverging_epochs_values:
  "checkpoint (projr (diverging_epochs 0 1))
     = Some [(''state_dict'', [(''w'', 2)]), (''optimizer'', [(''m'', 3)])]"
  "val_losses (projr (diverging_epochs 0 1)) = [Fin (1 / 2)]"
  "val_losses (projr (diverging_epochs 5 2)) = [NaN, NaN]"
  by code_simp+

text \<open>
  C1, as stated, fails: a validation loss can be \<open>NaN\<close>, and no loss is less than or equal
  to \<open>NaN\<close>. In the diverging training started with \<open>w = 0\<close> the validation losses of the
  two epochs are 1/2 and \<open>NaN\<close>; the call returns the checkpoint that epoch 0 has captured
  (the values 1 of \<open>w\<close> and 2 of \<open>m\<close>), whose loss 1/2 is not less than or equal to the
  loss of epoch 1, and the loss of epoch 1 is not less than or equal to that of epoch 0
  either: no epoch has a loss that is at most the loss of every epoch.
\<close>

theorem nan_loss_not_above_returned_checkpoint:
  "diverging_run 0 2 = Inr (projr (diverging_run 0 2))
   \<and> rv_val_losses (projr (diverging_run 0 2)) = [Fin (1 / 2), NaN]
   \<and> diverging_epochs 0 1 = Inr (projr (diverging_epochs 0 1))
   \<and> checkpoint (projr (diverging_epochs 0 1)) = Some (rv_checkpoint (projr (diverging_run 0 2)))
   \<and> checkpoint_values (rv_heap (projr (diverging_run 0 2)))
         (rv_checkpoint (projr (diverging_run 0 2)))
       = [(''state_dict'', [(''w'', 1)]), (''optimizer'', [(''m'', 2)])]
   \<and> \<not> fl_le (rv_val_losses (projr (diverging_run 0 2)) ! 0)
              (rv_val_losses (projr (diverging_run 0 2)) ! 1)
   \<and> \<not> fl_le (rv_val_losses (projr (diverging_run 0 2)) ! 1)
              (rv_val_losses (projr (diverging_run 0 2)) ! 0)"
proof -
  have "checkpoint_values (rv_heap (projr (diverging_run 0 2)))
         (rv_checkpoint (projr (diverging_run 0 2)))
       = [(''state_dict'', [(''w'', 1)]), (''optimizer'', [(''m'', 2)])]"
    unfolding diverging_run_values by (simp add: checkpoint_values_def)
  moreover have "\<not> fl_le (rv_val_losses (projr (diverging_run 0 2)) ! 0)
              (rv_val_losses (projr (diverging_run 0 2)) ! 1)"
    "\<not> fl_le (rv_val_losses (projr (diverging_run 0 2)) ! 1)
              (rv_val_losses (projr (diverging_run 0 2)) ! 0)"
    unfolding diverging_run_values by (simp_all add: fl_le_def)
  moreover have "checkpoint (projr (diverging_epochs 0 1))
       = Some (rv_checkpoint (projr (diverging_run 0 2)))"
    unfolding diverging_run_values diverging_epochs_values ..
  ultimately show ?thesis
    using diverging_run_returns diverging_run_values(1) diverging_epochs_returns(1)
    by (simp only: simp_thms)
qed

text \<open>
  C1, amended. For a run that returns: the running minimum starts at positive infinity with
  no checkpoint bound; at the end of every epoch a new checkpoint (the deep copies of the
  two state dictionaries) is captured and the minimum updated exactly when the validation
  loss of the epoch is strictly less than the running minimum (a comparison that is false
  when the loss is \<open>NaN\<close>), and nothing changes otherwise; so the returned checkpoint is
  the one captured at an epoch \<open>k\<close> whose validation loss is below positive infinity, at
  most the validation loss of every epoch whose loss is not \<open>NaN\<close>, and strictly less than
  that of every earlier epoch whose loss is not \<open>NaN\<close>.
\<close>

theorem best_checkpoint_selection:
  assumes "train_and_validate env M O' epochs amp TL VL ft fv h = Inr r"
  shows "min_val_loss (tv_init env amp h) = PInf \<and> checkpoint (tv_init env amp h) = None
    \<and> (\<forall>e<nat epochs. \<exists>t t'.
          run_epochs env M O' amp TL VL ft fv e h = Inr t
        \<and> run_epochs env M O' amp TL VL ft fv (Suc e) h = Inr t'
        \<and> (if fl_lt (rv_val_losses r ! e) (min_val_loss t)
            then min_val_loss t' = rv_val_losses r ! e
               \<and> (\<exists>c. checkpoint t' = Some c \<and> captured_at env M O' amp TL VL ft fv h e c)
            else min_val_loss t' = min_val_loss t \<and> checkpoint t' = checkpoint t))
    \<and> (\<exists>k<nat epochs.
          captured_at env M O' amp TL VL ft fv h k (rv_checkpoint r)
        \<and> fl_lt (rv_val_losses r ! k) PInf
        \<and> (\<forall>j<nat epochs. rv_val_losses r ! j \<noteq> NaN
               \<longrightarrow> fl_le (rv_val_losses r ! k) (rv_val_losses r ! j))
        \<and> (\<forall>j<k. rv_val_losses r ! j \<noteq> NaN
               \<longrightarrow> fl_lt (rv_val_losses r ! k) (rv_val_losses r ! j)))"
proof (intro conjI allI impI)
  show "min_val_loss (tv_init env amp h) = PInf" "checkpoint (tv_init env amp h) = None"
    by (simp_all add: tv_init_def)
next
  from train_and_validate_Inr [OF assms] obtain s
    where s: "run_epochs env M O' amp TL VL ft fv (nat epochs) h = Inr s"
      and c: "checkpoint s = Some (rv_checkpoint r)"
      and vl: "rv_val_losses r = val_losses s" by blast
  fix e assume e: "e < nat epochs"
  from epoch_step_facts [OF s e] obtain t t' s1 s2
    where t: "run_epochs env M O' amp TL VL ft fv e h = Inr t"
      and t': "run_epochs env M O' amp TL VL ft fv (Suc e) h = Inr t'"
      and S: "epoch_summary env M O' amp TL VL ft fv e t t' s1 s2"
      and nth: "val_losses s ! e = val_losses t' ! e"
      and lv: "length (val_losses t) = e" by blast
  define y where "y = np_mean_over (valLoss_perEpoch s2) (dataset_len VL)"
  have ap: "val_losses t' = val_losses t @ [y]"
    using S by (simp add: epoch_summary_def y_def)
  have cur: "rv_val_losses r ! e = y" using vl nth ap lv by (simp add: nth_append)
  have cur': "val_losses t' ! e = y" using ap lv by (simp add: nth_append)
  have sel: "if fl_lt y (min_val_loss t)
            then min_val_loss t' = y
               \<and> (\<exists>c. checkpoint t' = Some c \<and> captured_at env M O' amp TL VL ft fv h e c)
            else min_val_loss t' = min_val_loss t \<and> checkpoint t' = checkpoint t"
  proof (cases "fl_lt y (min_val_loss t)")
    case True
    with S have m: "min_val_loss t' = y"
      and c: "checkpoint t' = Some (captured_checkpoint M O' (heap s1))"
      and hp: "heap t' = captured_heap M O' (heap s1)"
      and tp: "train_pass env M O' amp TL ft e (reset_epoch t) = Inr s1"
      by (simp_all add: epoch_summary_def y_def)
    have "captured_at env M O' amp TL VL ft fv h e (captured_checkpoint M O' (heap s1))"
      unfolding captured_at_def
      using t t' tp True m c hp cur'
      by (intro exI [of _ t] exI [of _ t'] exI [of _ s1]) simp
    with True m c show ?thesis by simp
  next
    case False
    with S show ?thesis by (simp add: epoch_summary_def y_def)
  qed
  show "\<exists>t t'. run_epochs env M O' amp TL VL ft fv e h = Inr t
        \<and> run_epochs env M O' amp TL VL ft fv (Suc e) h = Inr t'
        \<and> (if fl_lt (rv_val_losses r ! e) (min_val_loss t)
            then min_val_loss t' = rv_val_losses r ! e
               \<and> (\<exists>c. checkpoint t' = Some c \<and> captured_at env M O' amp TL VL ft fv h e c)
            else min_val_loss t' = min_val_loss t \<and> checkpoint t' = checkpoint t)"
    using t t' sel unfolding cur by blast
next
  from train_and_validate_Inr [OF assms] obtain s
    where s: "run_epochs env M O' amp TL VL ft fv (nat epochs) h = Inr s"
      and c: "checkpoint s = Some (rv_checkpoint r)"
      and vl: "rv_val_losses r = val_losses s" by blast
  from run_epochs_lengths [OF s] have len: "length (val_losses s) = nat epochs" by simp
  from best_invariant [OF s] c obtain k
    where cap: "captured_at env M O' amp TL VL ft fv h k (rv_checkpoint r)"
      and best: "is_best (val_losses s) k" by auto
  from best len have "k < nat epochs"
    and "fl_lt (val_losses s ! k) PInf"
    and "\<forall>j<nat epochs. val_losses s ! j \<noteq> NaN \<longrightarrow> fl_le (val_losses s ! k) (val_losses s ! j)"
    and "\<forall>j<k. val_losses s ! j \<noteq> NaN \<longrightarrow> fl_lt (val_losses s ! k) (val_losses s ! j)"
    by (simp_all add: is_best_def)
  with cap show "\<exists>k<nat epochs.
          captured_at env M O' amp TL VL ft fv h k (rv_checkpoint r)
        \<and> fl_lt (rv_val_losses r ! k) PInf
        \<and> (\<forall>j<nat epochs. rv_val_losses r ! j \<noteq> NaN
               \<longrightarrow> fl_le (rv_val_losses r ! k) (rv_val_losses r ! j))
        \<and> (\<forall>j<k. rv_val_losses r ! j \<noteq> NaN
               \<longrightarrow> fl_lt (rv_val_losses r ! k) (rv_val_losses r ! j))"
    unfolding vl by blast
qed

text \<open>
  C3. For every epoch \<open>e\<close> of a run that returns, the recorded training loss is the sum of
  the sum-reduction losses of the training batches of that epoch (each computed with the
  parameters as they are before the step on that batch), divided by the size of the training
  dataset, and the recorded validation loss is the sum of the sum-reduction losses of the
  validation batches, computed after the training pass, divided by the size of the
  validation dataset; both sizes are not 0. The sum and the quotient are those of floats;
  when the batch losses are finite numbers they are the sum and the quotient of these
  numbers.
\<close>

theorem epoch_losses_dataset_normalised:
  assumes "train_and_validate env M O' epochs amp TL VL ft fv h = Inr r"
    and "e < nat epochs"
  shows "\<exists>t s1. run_epochs env M O' amp TL VL ft fv e h = Inr t
          \<and> train_pass env M O' amp TL ft e (reset_epoch t) = Inr s1
          \<and> dataset_len TL \<noteq> 0 \<and> dataset_len VL \<noteq> 0
          \<and> rv_train_losses r ! e =
              fl_div (fl_sum (batch_sum_losses env M O' amp (batches TL e) (heap t) (scaler t)))
                     (Fin (real (dataset_len TL)))
          \<and> rv_val_losses r ! e =
              fl_div (fl_sum (map (cce_sum env False amp (tensor_values (heap s1) M))
                                (batches VL e)))
                     (Fin (real (dataset_len VL)))
          \<and> (\<forall>xs. batch_sum_losses env M O' amp (batches TL e) (heap t) (scaler t) = map Fin xs
                \<longrightarrow> rv_train_losses r ! e = Fin (sum_list xs / real (dataset_len TL)))
          \<and> (\<forall>ys. map (cce_sum env False amp (tensor_values (heap s1) M)) (batches VL e)
                   = map Fin ys
                \<longrightarrow> rv_val_losses r ! e = Fin (sum_list ys / real (dataset_len VL)))"
proof -
  from train_and_validate_Inr [OF assms(1)] obtain s
    where s: "run_epochs env M O' amp TL VL ft fv (nat epochs) h = Inr s"
      and f: "rv_train_losses r = train_losses s" "rv_val_losses r = val_losses s" by blast
  from epoch_step_facts [OF s assms(2)] obtain t t' s1 s2
    where t: "run_epochs env M O' amp TL VL ft fv e h = Inr t"
      and S: "epoch_summary env M O' amp TL VL ft fv e t t' s1 s2"
      and nv: "val_losses s ! e = val_losses t' ! e"
      and nt: "train_losses s ! e = train_losses t' ! e"
      and lv: "length (val_losses t) = e" and lt: "length (train_losses t) = e" by blast
  let ?tl = "batch_sum_losses env M O' amp (batches TL e) (heap t) (scaler t)"
  let ?vl = "map (cce_sum env False amp (tensor_values (heap s1) M)) (batches VL e)"
  from S have tp: "train_pass env M O' amp TL ft e (reset_epoch t) = Inr s1"
    and dT: "dataset_len TL \<noteq> 0" and dV: "dataset_len VL \<noteq> 0"
    and tls: "trainingLoss_perEpoch s2 = ?tl"
    and vls: "valLoss_perEpoch s2 = ?vl"
    and a1: "train_losses t' = train_losses t @ [np_mean_over (trainingLoss_perEpoch s2) (dataset_len TL)]"
    and a2: "val_losses t' = val_losses t @ [np_mean_over (valLoss_perEpoch s2) (dataset_len VL)]"
    by (simp_all add: epoch_summary_def)
  have T: "rv_train_losses r ! e = np_mean_over ?tl (dataset_len TL)"
    using a1 lt f nt tls by (simp add: nth_append)
  have V: "rv_val_losses r ! e = np_mean_over ?vl (dataset_len VL)"
    using a2 lv f nv vls by (simp add: nth_append)
  have T': "rv_train_losses r ! e = Fin (sum_list xs / real (dataset_len TL))"
    if "?tl = map Fin xs" for xs
    unfolding T that using dT by (rule np_mean_over_map_Fin)
  have V': "rv_val_losses r ! e = Fin (sum_list ys / real (dataset_len VL))"
    if "?vl = map Fin ys" for ys
    unfolding V that using dV by (rule np_mean_over_map_Fin)
  from t tp dT dV T [unfolded np_mean_over_def] V [unfolded np_mean_over_def] T' V'
  show ?thesis by blast
qed

text \<open>
  C4. For a number of epochs that is 0 (or negative) the loop leaves the four metric
  sequences empty and the return raises \<^verbatim>\<open>UnboundLocalError\<close>. More generally, for any
  number of epochs: when the loop completes and no epoch has a validation loss below positive
  infinity (each loss is \<open>NaN\<close> or positive infinity, so that the running minimum never
  improves on its initial value), no checkpoint is bound, the running minimum is still
  positive infinity and the return raises \<^verbatim>\<open>UnboundLocalError\<close>; and when the call returns,
  some epoch has a validation loss below positive infinity.
\<close>

theorem no_checkpoint_raises:
  "(epochs \<le> 0 \<longrightarrow>
      train_and_validate env M O' epochs amp TL VL ft fv h = Inl UnboundLocalError
      \<and> (\<exists>s. run_epochs env M O' amp TL VL ft fv (nat epochs) h = Inr s
            \<and> train_losses s = [] \<and> val_losses s = [] \<and> train_accs s = [] \<and> val_accs s = []))
   \<and> (\<forall>s. run_epochs env M O' amp TL VL ft fv (nat epochs) h = Inr s
            \<and> (\<forall>j<nat epochs. \<not> fl_lt (val_losses s ! j) PInf)
        \<longrightarrow> train_and_validate env M O' epochs amp TL VL ft fv h = Inl UnboundLocalError
            \<and> checkpoint s = None \<and> min_val_loss s = PInf
            \<and> length (val_losses s) = nat epochs)
   \<and> (\<forall>r. train_and_validate env M O' epochs amp TL VL ft fv h = Inr r
        \<longrightarrow> (\<exists>k<nat epochs. fl_lt (rv_val_losses r ! k) PInf))"
proof (intro conjI allI impI)
  assume "epochs \<le> 0"
  then have n: "nat epochs = 0" by simp
  show "train_and_validate env M O' epochs amp TL VL ft fv h = Inl UnboundLocalError"
    by (rule train_and_validate_unbound [where s = "tv_init env amp h"])
       (simp_all add: n run_epochs_0 tv_init_def)
  show "\<exists>s. run_epochs env M O' amp TL VL ft fv (nat epochs) h = Inr s
            \<and> train_losses s = [] \<and> val_losses s = [] \<and> train_accs s = [] \<and> val_accs s = []"
    by (simp add: n run_epochs_0 tv_init_def)
next
  fix s assume A: "run_epochs env M O' amp TL VL ft fv (nat epochs) h = Inr s
            \<and> (\<forall>j<nat epochs. \<not> fl_lt (val_losses s ! j) PInf)"
  then have s: "run_epochs env M O' amp TL VL ft fv (nat epochs) h = Inr s"
    and m: "\<And>j. j < nat epochs \<Longrightarrow> \<not> fl_lt (val_losses s ! j) PInf" by simp_all
  from run_epochs_lengths [OF s] have len: "length (val_losses s) = nat epochs" by simp
  have none: "checkpoint s = None \<and> min_val_loss s = PInf"
    using best_invariant [OF s]
  proof
    assume "checkpoint s = None \<and> min_val_loss s = PInf
            \<and> (\<forall>j<nat epochs. \<not> fl_lt (val_losses s ! j) PInf)"
    then show ?thesis by simp
  next
    assume "\<exists>k c. checkpoint s = Some c \<and> captured_at env M O' amp TL VL ft fv h k c
                \<and> is_best (val_losses s) k \<and> min_val_loss s = val_losses s ! k"
    then obtain k where best: "is_best (val_losses s) k" by blast
    from best len have "k < nat epochs" and "fl_lt (val_losses s ! k) PInf"
      by (simp_all add: is_best_def)
    with m show ?thesis by blast
  qed
  from none show "checkpoint s = None" and "min_val_loss s = PInf" by simp_all
  from s none show "train_and_validate env M O' epochs amp TL VL ft fv h = Inl UnboundLocalError"
    by (simp add: train_and_validate_unbound)
  from len show "length (val_losses s) = nat epochs" .
next
  fix r assume R: "train_and_validate env M O' epochs amp TL VL ft fv h = Inr r"
  from train_and_validate_Inr [OF R] obtain s
    where s: "run_epochs env M O' amp TL VL ft fv (nat epochs) h = Inr s"
      and c: "checkpoint s = Some (rv_checkpoint r)"
      and vl: "rv_val_losses r = val_losses s" by blast
  from run_epochs_lengths [OF s] have len: "length (val_losses s) = nat epochs" by simp
  from best_invariant [OF s] c obtain k where best: "is_best (val_losses s) k" by auto
  from best len have "k < nat epochs" and "fl_lt (val_losses s ! k) PInf"
    by (simp_all add: is_best_def)
  then show "\<exists>k<nat epochs. fl_lt (rv_val_losses r ! k) PInf"
    unfolding vl by blast
qed

lemma deepcopy_fst:
  "fst (deepcopy sd h) = zip (map fst sd) [length h ..< length h + length sd]"
  by (simp add: deepcopy_def)

lemma deepcopy_snd: "snd (deepcopy sd h) = h @ map (\<lambda>e. h ! snd e) sd"
  by (simp add: deepcopy_def)

lemma deepcopy_addrs:
  "snd ` set (fst (deepcopy sd h)) = {length h ..< length h + length sd}"
proof -
  have "map snd (zip (map fst sd) [length h ..< length h + length sd])
          = [length h ..< length h + length sd]"
    by (rule map_snd_zip) simp
  then have "set (map snd (fst (deepcopy sd h))) = set [length h ..< length h + length sd]"
    by (simp add: deepcopy_fst)
  then show ?thesis by simp
qed

lemma deepcopy_values:
  "map (\<lambda>e. (fst e, (snd (deepcopy sd h) @ rest) ! snd e)) (fst (deepcopy sd h))
     = map (\<lambda>e. (fst e, h ! snd e)) sd"
  by (rule nth_equalityI) (simp_all add: deepcopy_fst deepcopy_snd nth_append)

lemma checkpoint_addrs_captured:
  "checkpoint_addrs (captured_checkpoint M O' h) = {length h ..< length h + length M + length O'}"
  by (auto simp: checkpoint_addrs_def captured_checkpoint_def deepcopy_addrs deepcopy_snd)

lemma checkpoint_values_cong:
  assumes "\<And>a. a \<in> checkpoint_addrs c \<Longrightarrow> h' ! a = h ! a"
  shows "checkpoint_values h' c = checkpoint_values h c"
  unfolding checkpoint_values_def
proof (rule map_cong [OF refl], rule arg_cong [where f = "Pair _"], rule map_cong [OF refl])
  fix f e assume "f \<in> set c" and "e \<in> set (snd f)"
  then have "snd e \<in> checkpoint_addrs c" by (auto simp: checkpoint_addrs_def)
  from assms [OF this] show "(fst e, h' ! snd e) = (fst e, h ! snd e)" by simp
qed

lemma captured_values:
  assumes "\<forall>a \<in> snd ` set O'. a < length h"
  shows "checkpoint_values (captured_heap M O' h) (captured_checkpoint M O' h)
     = [(''state_dict'', map (\<lambda>e. (fst e, h ! snd e)) M),
        (''optimizer'', map (\<lambda>e. (fst e, h ! snd e)) O')]"
proof -
  let ?h1 = "snd (deepcopy M h)"
  have h2: "captured_heap M O' h = ?h1 @ map (\<lambda>e. ?h1 ! snd e) O'"
    by (simp add: captured_heap_def deepcopy_snd)
  have m: "map (\<lambda>e. (fst e, captured_heap M O' h ! snd e)) (fst (deepcopy M h))
            = map (\<lambda>e. (fst e, h ! snd e)) M"
    unfolding h2 by (rule deepcopy_values)
  have "map (\<lambda>e. (fst e, (snd (deepcopy O' ?h1) @ []) ! snd e)) (fst (deepcopy O' ?h1))
            = map (\<lambda>e. (fst e, ?h1 ! snd e)) O'"
    by (rule deepcopy_values)
  moreover have "map (\<lambda>e. (fst e, ?h1 ! snd e)) O' = map (\<lambda>e. (fst e, h ! snd e)) O'"
    using assms by (auto simp: deepcopy_snd nth_append)
  ultimately have o: "map (\<lambda>e. (fst e, captured_heap M O' h ! snd e)) (fst (deepcopy O' ?h1))
            = map (\<lambda>e. (fst e, h ! snd e)) O'"
    by (simp add: captured_heap_def)
  show ?thesis
    by (simp add: checkpoint_values_def captured_checkpoint_def m o)
qed

lemma heap_frame_values:
  assumes "heap_frame live h h'" and "checkpoint_addrs c \<subseteq> {..<length h}"
    and "checkpoint_addrs c \<inter> live = {}"
  shows "checkpoint_values h' c = checkpoint_values h c"
proof (rule checkpoint_values_cong)
  fix a assume a: "a \<in> checkpoint_addrs c"
  with assms(2,3) have "a < length h" "a \<notin> live" by auto
  with assms(1) show "h' ! a = h ! a" by (simp add: heap_frame_def)
qed

lemma heap_frame_length: "heap_frame live h h' \<Longrightarrow> length h \<le> length h'"
  by (simp add: heap_frame_def)

text \<open>
  C5. Let the live tensors of the model and of the optimizer be allocated in the initial
  store, and let \<open>c\<close> be the checkpoint bound after \<open>k\<close> epochs. Then \<open>c\<close> shares no
  address with the live tensors, and after any later number \<open>n\<close> of epochs (whose steps
  overwrite the live tensors in place, and which may capture other checkpoints) the values
  stored in \<open>c\<close> are the same: they are the values that the live tensors had at the end of
  the epoch that captured \<open>c\<close>.
\<close>

theorem checkpoint_isolation:
  assumes wf: "\<forall>a \<in> snd ` set M \<union> snd ` set O'. a < length h"
    and sk: "run_epochs env M O' amp TL VL ft fv k h = Inr sk"
    and c: "checkpoint sk = Some c"
    and kn: "k \<le> n"
    and sn: "run_epochs env M O' amp TL VL ft fv n h = Inr sn"
  shows "checkpoint_addrs c \<inter> (snd ` set M \<union> snd ` set O') = {}
       \<and> checkpoint_values (heap sn) c = checkpoint_values (heap sk) c
       \<and> (\<exists>j sj. j < k \<and> run_epochs env M O' amp TL VL ft fv (Suc j) h = Inr sj
             \<and> captured_at env M O' amp TL VL ft fv h j c
             \<and> checkpoint_values (heap sn) c
                 = [(''state_dict'', map (\<lambda>e. (fst e, heap sj ! snd e)) M),
                    (''optimizer'', map (\<lambda>e. (fst e, heap sj ! snd e)) O')])"
proof -
  let ?live = "snd ` set M \<union> snd ` set O'"
  from best_invariant [OF sk] c obtain j
    where cap: "captured_at env M O' amp TL VL ft fv h j c"
      and best: "is_best (val_losses sk) j" by auto
  from best run_epochs_lengths [OF sk] have jk: "j < k" by (simp add: is_best_def)
  from cap obtain sa sj s1
    where sa: "run_epochs env M O' amp TL VL ft fv j h = Inr sa"
      and sj: "run_epochs env M O' amp TL VL ft fv (Suc j) h = Inr sj"
      and tp: "train_pass env M O' amp TL ft j (reset_epoch sa) = Inr s1"
      and cdef: "c = captured_checkpoint M O' (heap s1)"
      and hj: "heap sj = captured_heap M O' (heap s1)"
    unfolding captured_at_def by blast
  from run_epochs_take [OF sa, of 0] have f0: "heap_frame ?live h (heap sa)"
    by (auto simp: run_epochs_0 tv_init_def)
  from train_fold_unchanged [OF tp [unfolded train_pass_def]]
  have f1: "heap_frame ?live (heap sa) (heap s1)" by (simp add: reset_epoch_fields)
  have len1: "length h \<le> length (heap s1)"
    using heap_frame_trans [OF f0 f1] by (rule heap_frame_length)
  have addrs: "checkpoint_addrs c = {length (heap s1) ..< length (heap s1) + length M + length O'}"
    unfolding cdef by (rule checkpoint_addrs_captured)
  have disj: "checkpoint_addrs c \<inter> ?live = {}"
  proof -
    have "a \<notin> checkpoint_addrs c" if "a \<in> ?live" for a
    proof -
      from wf that have "a < length h" by blast
      with len1 show ?thesis by (simp add: addrs)
    qed
    then show ?thesis by blast
  qed
  have alloc: "checkpoint_addrs c \<subseteq> {..<length (heap sj)}"
    by (auto simp: addrs hj captured_heap_length)
  have wf1: "a < length (heap s1)" if "a \<in> ?live" for a
  proof -
    from wf that have "a < length h" by blast
    with len1 show ?thesis by simp
  qed
  have wfO: "\<forall>a \<in> snd ` set O'. a < length (heap s1)"
    using wf1 by blast
  have wfM: "\<forall>a \<in> snd ` set M. a < length (heap s1)"
    using wf1 by blast
  have snap: "checkpoint_values (heap sj) c
        = [(''state_dict'', map (\<lambda>e. (fst e, heap sj ! snd e)) M),
           (''optimizer'', map (\<lambda>e. (fst e, heap sj ! snd e)) O')]"
  proof -
    have "map (\<lambda>e. (fst e, heap sj ! snd e)) M = map (\<lambda>e. (fst e, heap s1 ! snd e)) M"
      using wfM by (auto simp: hj captured_heap_old)
    moreover
    have "map (\<lambda>e. (fst e, heap sj ! snd e)) O' = map (\<lambda>e. (fst e, heap s1 ! snd e)) O'"
      using wfO by (auto simp: hj captured_heap_old)
    ultimately show ?thesis
      unfolding cdef hj using captured_values [OF wfO, of M] by simp
  qed
  from jk have "Suc j \<le> k" by simp
  from run_epochs_take [OF sk this] sj have fk: "heap_frame ?live (heap sj) (heap sk)" by auto
  from run_epochs_take [OF sn kn] sk have fn: "heap_frame ?live (heap sk) (heap sn)" by auto
  have vk: "checkpoint_values (heap sk) c = checkpoint_values (heap sj) c"
    using fk alloc disj by (rule heap_frame_values)
  have "heap_frame ?live (heap sj) (heap sn)" using fk fn by (rule heap_frame_trans)
  then have vn: "checkpoint_values (heap sn) c = checkpoint_values (heap sj) c"
    using alloc disj by (rule heap_frame_values)
  show ?thesis
    using disj vk vn snap jk sj cap
    by (intro conjI exI [of _ j] exI [of _ sj]) simp_all
qed

lemma demo_run_returns: "demo_run 3 = Inr (projr (demo_run 3))"
  by code_simp

lemma demo_run_values:
  "rv_val_losses (projr (demo_run 3)) = [Fin (1 / 2), Fin 0, Fin (1 / 2)]"
  "rv_train_losses (projr (demo_run 3)) = [Fin (1 / 2), Fin (1 / 2), Fin 1]"
  "rv_checkpoint (projr (demo_run 3)) = [(''state_dict'', [(''w'', 4)]), (''optimizer'', [(''m'', 5)])]"
  "rv_heap (projr (demo_run 3)) = [3, 6, 1, 2, 2, 4]"
  by code_simp+

lemma demo_epochs_returns:
  "demo_epochs 1 = Inr (projr (demo_epochs 1))" "demo_epochs 3 = Inr (projr (demo_epochs 3))"
  by code_simp+

lemma demo_epochs_values:
  "checkpoint (projr (demo_epochs 1)) = Some [(''state_dict'', [(''w'', 2)]), (''optimizer'', [(''m'', 3)])]"
  "heap (projr (demo_epochs 1)) = [1, 2, 1, 2]"
  "heap (projr (demo_epochs 3)) = [3, 6, 1, 2, 2, 4]"
  by code_simp+

theorem best_checkpoint_selection_witness:
  "demo_run 3 = Inr (projr (demo_run 3))
   \<and> rv_val_losses (projr (demo_run 3)) = [Fin (1 / 2), Fin 0, Fin (1 / 2)]
   \<and> rv_checkpoint (projr (demo_run 3))
       = [(''state_dict'', [(''w'', 4)]), (''optimizer'', [(''m'', 5)])]
   \<and> (\<exists>k. k < nat 3
         \<and> captured_at demo_env demo_model demo_optimizer False demo_train demo_val 1 1 [0, 0] k
             (rv_checkpoint (projr (demo_run 3)))
         \<and> fl_lt (rv_val_losses (projr (demo_run 3)) ! k) PInf
         \<and> rv_val_losses (projr (demo_run 3)) ! 2 \<noteq> NaN
         \<and> fl_le (rv_val_losses (projr (demo_run 3)) ! k) (rv_val_losses (projr (demo_run 3)) ! 2))"
proof -
  from best_checkpoint_selection [OF demo_run_returns [unfolded demo_run_def]]
  obtain k where k: "k < nat 3"
    and cap: "captured_at demo_env demo_model demo_optimizer False demo_train demo_val 1 1 [0, 0] k
             (rv_checkpoint (projr (demo_run 3)))"
    and fin: "fl_lt (rv_val_losses (projr (demo_run 3)) ! k) PInf"
    and le: "\<forall>j<nat 3. rv_val_losses (projr (demo_run 3)) ! j \<noteq> NaN
               \<longrightarrow> fl_le (rv_val_losses (projr (demo_run 3)) ! k)
                            (rv_val_losses (projr (demo_run 3)) ! j)"
    unfolding demo_run_def [symmetric] by blast
  have nn: "rv_val_losses (projr (demo_run 3)) ! 2 \<noteq> NaN" by (simp add: demo_run_values)
  with le have "fl_le (rv_val_losses (projr (demo_run 3)) ! k) (rv_val_losses (projr (demo_run 3)) ! 2)"
    by simp
  with k cap fin nn demo_run_returns demo_run_values(1,3) show ?thesis by blast
qed


theorem epoch_losses_dataset_normalised_witness:
  "demo_run 3 = Inr (projr (demo_run 3)) \<and> (2::nat) < nat 3
   \<and> rv_train_losses (projr (demo_run 3)) ! 2 = Fin 1
   \<and> rv_val_losses (projr (demo_run 3)) ! 2 = Fin (1 / 2)
   \<and> (\<exists>t s1. demo_epochs 2 = Inr t
         \<and> train_pass demo_env demo_model demo_optimizer False demo_train 1 2 (reset_epoch t) = Inr s1
         \<and> rv_train_losses (projr (demo_run 3)) ! 2 =
              fl_div (fl_sum (batch_sum_losses demo_env demo_model demo_optimizer False
                                (batches demo_train 2) (heap t) (scaler t)))
                     (Fin (real (dataset_len demo_train)))
         \<and> rv_val_losses (projr (demo_run 3)) ! 2 =
              fl_div (fl_sum (map (cce_sum demo_env False False (tensor_values (heap s1) demo_model))
                                (batches demo_val 2)))
                     (Fin (real (dataset_len demo_val))))"
proof -
  have e: "(2::nat) < nat 3" by simp
  from epoch_losses_dataset_normalised [OF demo_run_returns [unfolded demo_run_def] e]
  have "\<exists>t s1. demo_epochs 2 = Inr t
         \<and> train_pass demo_env demo_model demo_optimizer False demo_train 1 2 (reset_epoch t) = Inr s1
         \<and> rv_train_losses (projr (demo_run 3)) ! 2 =
              fl_div (fl_sum (batch_sum_losses demo_env demo_model demo_optimizer False
                                (batches demo_train 2) (heap t) (scaler t)))
                     (Fin (real (dataset_len demo_train)))
         \<and> rv_val_losses (projr (demo_run 3)) ! 2 =
              fl_div (fl_sum (map (cce_sum demo_env False False (tensor_values (heap s1) demo_model))
                                (batches demo_val 2)))
                     (Fin (real (dataset_len demo_val)))"
    unfolding demo_run_def [symmetric] demo_epochs_def [symmetric] by blast
  moreover have "rv_train_losses (projr (demo_run 3)) ! 2 = Fin 1"
    "rv_val_losses (projr (demo_run 3)) ! 2 = Fin (1 / 2)"
    by (simp_all add: demo_run_values)
  ultimately show ?thesis using demo_run_returns e by blast
qed

theorem no_checkpoint_raises_witness:
  "diverging_epochs 5 2 = Inr (projr (diverging_epochs 5 2))
   \<and> val_losses (projr (diverging_epochs 5 2)) = [NaN, NaN]
   \<and> \<not> fl_lt (val_losses (projr (diverging_epochs 5 2)) ! 0) PInf
   \<and> \<not> fl_lt (val_losses (projr (diverging_epochs 5 2)) ! 1) PInf
   \<and> diverging_run 5 2 = Inl UnboundLocalError
   \<and> checkpoint (projr (diverging_epochs 5 2)) = None
   \<and> (0::int) \<le> 0
   \<and> demo_run 0 = Inl UnboundLocalError
   \<and> (\<exists>s. demo_epochs (nat 0) = Inr s
         \<and> train_losses s = [] \<and> val_losses s = [] \<and> train_accs s = [] \<and> val_accs s = [])"
proof -
  note T0 = no_checkpoint_raises [of 0 demo_env demo_model demo_optimizer False demo_train
      demo_val 1 1 "[0, 0]", unfolded demo_run_def [symmetric] demo_epochs_def [symmetric]]
  note T2 = no_checkpoint_raises [of 2 diverging_env demo_model demo_optimizer False demo_train
      demo_val 1 1 "[5, 0]", unfolded nat_numeral,
      unfolded diverging_run_def [symmetric] diverging_epochs_def [symmetric]]
  from T0 have a: "demo_run 0 = Inl UnboundLocalError" by simp
  from T0 have b: "\<exists>s. demo_epochs (nat 0) = Inr s
         \<and> train_losses s = [] \<and> val_losses s = [] \<and> train_accs s = [] \<and> val_accs s = []"
    by simp
  have n0: "\<not> fl_lt (val_losses (projr (diverging_epochs 5 2)) ! 0) PInf"
    and n1: "\<not> fl_lt (val_losses (projr (diverging_epochs 5 2)) ! 1) PInf"
    unfolding diverging_epochs_values by simp_all
  have all: "\<forall>j<2. \<not> fl_lt (val_losses (projr (diverging_epochs 5 2)) ! j) PInf"
    using n0 n1 by (simp add: less_2_cases_iff)
  from T2 diverging_epochs_returns(2) all
  have c: "diverging_run 5 2 = Inl UnboundLocalError"
    and d: "checkpoint (projr (diverging_epochs 5 2)) = None" by blast+
  from a b c d n0 n1 diverging_epochs_returns(2) diverging_epochs_values(3)
  show ?thesis by simp
qed

theorem checkpoint_isolation_witness:
  "demo_epochs 1 = Inr (projr (demo_epochs 1))
   \<and> checkpoint (projr (demo_epochs 1))
       = Some [(''state_dict'', [(''w'', 2)]), (''optimizer'', [(''m'', 3)])]
   \<and> demo_epochs 3 = Inr (projr (demo_epochs 3))
   \<and> heap (projr (demo_epochs 1)) = [1, 2, 1, 2]
   \<and> heap (projr (demo_epochs 3)) = [3, 6, 1, 2, 2, 4]
   \<and> checkpoint_values (heap (projr (demo_epochs 3)))
        [(''state_dict'', [(''w'', 2)]), (''optimizer'', [(''m'', 3)])]
      = checkpoint_values (heap (projr (demo_epochs 1)))
        [(''state_dict'', [(''w'', 2)]), (''optimizer'', [(''m'', 3)])]
   \<and> checkpoint_values (heap (projr (demo_epochs 3)))
        [(''state_dict'', [(''w'', 2)]), (''optimizer'', [(''m'', 3)])]
      = [(''state_dict'', [(''w'', 1)]), (''optimizer'', [(''m'', 2)])]"
proof -
  have wf: "\<forall>a \<in> snd ` set demo_model \<union> snd ` set demo_optimizer. a < length [0, 0 :: int]"
    by (simp add: demo_model_def demo_optimizer_def)
  have kn: "(1::nat) \<le> 3" by simp
  from checkpoint_isolation [OF wf demo_epochs_returns(1) [unfolded demo_epochs_def]
      demo_epochs_values(1) [unfolded demo_epochs_def] kn
      demo_epochs_returns(2) [unfolded demo_epochs_def]]
  have "checkpoint_values (heap (projr (demo_epochs 3)))
        [(''state_dict'', [(''w'', 2)]), (''optimizer'', [(''m'', 3)])]
      = checkpoint_values (heap (projr (demo_epochs 1)))
        [(''state_dict'', [(''w'', 2)]), (''optimizer'', [(''m'', 3)])]"
    unfolding demo_epochs_def [symmetric] by blast
  moreover have "checkpoint_values (heap (projr (demo_epochs 1)))
        [(''state_dict'', [(''w'', 2)]), (''optimizer'', [(''m'', 3)])]
      = [(''state_dict'', [(''w'', 1)]), (''optimizer'', [(''m'', 2)])]"
    unfolding demo_epochs_values(2) by (simp add: checkpoint_values_def)
  ultimately show ?thesis
    using demo_epochs_returns demo_epochs_values by (simp only:)
qed

end
